theory Spec2Isabelle
  imports Main "HOL-Library.Word" "HOL-Library.Signed_Division"
begin

section \<open>The NDI output of obs-ndi: machine arithmetic\<close>

text \<open>
  The development embeds \<^verbatim>\<open>src/obs-ndi-output.cpp\<close>. Stored fields keep their C
  width (\<open>32 word\<close>, \<open>64 word\<close>); arithmetic is done on \<open>int\<close> with each C conversion
  written out. Pointers are addresses (\<open>nat\<close>), the null pointer is \<open>0\<close>.
\<close>

type_synonym u8 = "8 word"
type_synonym u32 = "32 word"
type_synonym u64 = "64 word"
type_synonym ptr = nat

datatype error =
    Div_by_zero        \<comment> \<open>integer division by zero (the process traps)\<close>
  | Div_overflow       \<comment> \<open>\<open>INT_MIN / -1\<close>\<close>
  | Pop_empty          \<comment> \<open>\<open>circlebuf_pop_front\<close> on a buffer holding no record\<close>
  | Sem_blocked        \<comment> \<open>\<open>os_sem_wait\<close> on a semaphore no other thread will post\<close>
  | Loop_diverges      \<comment> \<open>a loop whose counter wraps around and never leaves\<close>
  | Join_no_thread     \<comment> \<open>\<open>pthread_join\<close> on a thread that is not running\<close>

definition MAX_BUFFERING_FRAMES :: nat where
  "MAX_BUFFERING_FRAMES = 60"

definition min_uint32 :: "u32 \<Rightarrow> u32 \<Rightarrow> u32" where
  "min_uint32 a b = (if a < b then a else b)"

definition min_int :: "int \<Rightarrow> int \<Rightarrow> int" where
  "min_int a b = (if a < b then a else b)"

text \<open>Conversion of an integer value to C's \<open>int\<close> (32 bits, two's complement) and to
  \<open>int64_t\<close>, \<open>uint64_t\<close>: the value is reduced modulo the width.\<close>

definition to_int32 :: "int \<Rightarrow> int" where
  "to_int32 v = (v + 2 ^ 31) mod 2 ^ 32 - 2 ^ 31"

definition to_int64 :: "int \<Rightarrow> int" where
  "to_int64 v = (v + 2 ^ 63) mod 2 ^ 64 - 2 ^ 63"

definition to_uint64 :: "int \<Rightarrow> int" where
  "to_uint64 v = v mod 2 ^ 64"

text \<open>
  \<^verbatim>\<open>1000000000ULL / (video_frame.frame_rate_N / video_frame.frame_rate_D)\<close>, as written in
  both \<^verbatim>\<open>ndi_videosend_thread\<close> (\<open>frame_duration\<close>) and \<^verbatim>\<open>ndi_output_rawvideo\<close>
  (\<open>frame_time\<close>). The two rate fields of \<^verbatim>\<open>NDIlib_video_frame_v2_t\<close> are C \<open>int\<close>s, so
  the inner quotient is a truncating \<open>int\<close> division; it is then converted to
  \<open>unsigned long long\<close> for the outer division.
\<close>

definition frame_time_of :: "u32 \<Rightarrow> u32 \<Rightarrow> error + int" where
  "frame_time_of frame_rate_N frame_rate_D =
     (let n = sint frame_rate_N; d = sint frame_rate_D in
      if d = 0 then Inl Div_by_zero
      else if n = - (2 ^ 31) \<and> d = - 1 then Inl Div_overflow
      else let fps = to_uint64 (n sdiv d) in
        if fps = 0 then Inl Div_by_zero
        else Inr (1000000000 div fps))"

text \<open>
  The drift computation of \<^verbatim>\<open>ndi_output_rawvideo\<close>:
  \<^verbatim>\<open>
  int64_t audio_buffering =
      (int64_t)frame->timestamp - (int64_t)o->last_audio_timestamp;
  if (audio_buffering < 0) audio_buffering = 0;
  int required_delay_frames = (int)audio_buffering / (int)frame_time;
  \<close>
\<close>

definition audio_buffering_of :: "u64 \<Rightarrow> u64 \<Rightarrow> int" where
  "audio_buffering_of timestamp last_audio_timestamp =
     (let b = to_int64 (to_int64 (uint timestamp) - to_int64 (uint last_audio_timestamp))
      in if b < 0 then 0 else b)"

definition required_delay_frames_of :: "int \<Rightarrow> int \<Rightarrow> error + int" where
  "required_delay_frames_of audio_buffering frame_time =
     (let a = to_int32 audio_buffering; t = to_int32 frame_time in
      if t = 0 then Inl Div_by_zero
      else if a = - (2 ^ 31) \<and> t = - 1 then Inl Div_overflow
      else Inr (a sdiv t))"

section \<open>Pixel converter\<close>

text \<open>
  Memory is a map from addresses to bytes. A conversion routine is run on a pair of the
  memory and the list of the addresses it has stored to so far, in program order; loads
  see the stores made before them, so overlapping source and destination are covered.
\<close>

type_synonym memory = "ptr \<Rightarrow> u8"
type_synonym conv_state = "memory \<times> ptr list"

text \<open>
  The inner loop, shared by the three routines:
  \<^verbatim>\<open>
  for (uint32_t x = 0; x < width; x += 2) {
      *(_out++) = *(_U++); _U++;     // i420: no second increment
      *(_out++) = *(_Y++);
      *(_out++) = *(_V++); _V++;     // i420: no second increment
      *(_out++) = *(_Y++);
  }
  \<close>
  \<open>cstep\<close> is the distance the chroma pointers advance per iteration (2 for NV12 and I444,
  1 for I420). \<open>x\<close> is a \<open>uint32_t\<close>: when \<open>x += 2\<close> wraps around, \<open>x\<close> is 0 again, still
  below \<open>width\<close>, and the loop never leaves; that is the result \<open>None\<close>.
\<close>

function pack_row ::
  "nat \<Rightarrow> nat \<Rightarrow> nat \<Rightarrow> ptr \<Rightarrow> ptr \<Rightarrow> ptr \<Rightarrow> ptr \<Rightarrow> conv_state \<Rightarrow> conv_state option" where
  "pack_row cstep x width pY pU pV pOut (m, stored) =
     (if x < width then
        (let m1 = m(pOut := m pU);
             m2 = m1(pOut + 1 := m1 pY);
             m3 = m2(pOut + 2 := m2 pV);
             m4 = m3(pOut + 3 := m3 (pY + 1))
         in if 2 ^ 32 \<le> x + 2 then None
            else pack_row cstep (x + 2) width (pY + 2) (pU + cstep) (pV + cstep) (pOut + 4)
                   (m4, stored @ [pOut, pOut + 1, pOut + 2, pOut + 3]))
      else Some (m, stored))"
  by pat_completeness auto
termination
  by (relation "measure (\<lambda>(cstep, x, width, pY, pU, pV, pOut, st). width - x)") auto

declare pack_row.simps [simp del]

text \<open>\<^verbatim>\<open>y * linesize\<close> on two \<open>uint32_t\<close>: the product is reduced modulo \<open>2 ^ 32\<close> before it
  is added to the pointer.\<close>

definition mul_u32 :: "nat \<Rightarrow> u32 \<Rightarrow> nat" where
  "mul_u32 y linesize = (y * unat linesize) mod 2 ^ 32"

text \<open>
  The three routines. The row counter \<open>y\<close> runs from \<open>start_y\<close> to \<open>end_y\<close>; the function is
  called with \<open>y = start_y\<close>. \<open>input\<close> and \<open>in_linesize\<close> are the plane arrays of the host's
  \<^verbatim>\<open>struct video_data\<close> (\<^verbatim>\<open>MAX_AV_PLANES\<close> entries each).
\<close>

function convert_nv12_to_uyvy ::
  "ptr list \<Rightarrow> u32 list \<Rightarrow> nat \<Rightarrow> nat \<Rightarrow> ptr \<Rightarrow> u32 \<Rightarrow> conv_state \<Rightarrow> conv_state option" where
  "convert_nv12_to_uyvy input in_linesize y end_y output out_linesize st =
     (let width = unat (min_uint32 (in_linesize ! 0) out_linesize) in
      if y < end_y then
        (let pY = input ! 0 + mul_u32 y (in_linesize ! 0);
             pU = input ! 1 + mul_u32 (y div 2) (in_linesize ! 1);
             pV = pU + 1;
             pOut = output + mul_u32 y out_linesize
         in case pack_row 2 0 width pY pU pV pOut st of
              None \<Rightarrow> None
            | Some st' \<Rightarrow>
                convert_nv12_to_uyvy input in_linesize (y + 1) end_y output out_linesize st')
      else Some st)"
  by pat_completeness auto
termination
  by (relation "measure (\<lambda>(input, in_linesize, y, end_y, output, out_linesize, st). end_y - y)")
     auto

function convert_i420_to_uyvy ::
  "ptr list \<Rightarrow> u32 list \<Rightarrow> nat \<Rightarrow> nat \<Rightarrow> ptr \<Rightarrow> u32 \<Rightarrow> conv_state \<Rightarrow> conv_state option" where
  "convert_i420_to_uyvy input in_linesize y end_y output out_linesize st =
     (let width = unat (min_uint32 (in_linesize ! 0) out_linesize) in
      if y < end_y then
        (let pY = input ! 0 + mul_u32 y (in_linesize ! 0);
             pU = input ! 1 + mul_u32 (y div 2) (in_linesize ! 1);
             pV = input ! 2 + mul_u32 (y div 2) (in_linesize ! 2);
             pOut = output + mul_u32 y out_linesize
         in case pack_row 1 0 width pY pU pV pOut st of
              None \<Rightarrow> None
            | Some st' \<Rightarrow>
                convert_i420_to_uyvy input in_linesize (y + 1) end_y output out_linesize st')
      else Some st)"
  by pat_completeness auto
termination
  by (relation "measure (\<lambda>(input, in_linesize, y, end_y, output, out_linesize, st). end_y - y)")
     auto

function convert_i444_to_uyvy ::
  "ptr list \<Rightarrow> u32 list \<Rightarrow> nat \<Rightarrow> nat \<Rightarrow> ptr \<Rightarrow> u32 \<Rightarrow> conv_state \<Rightarrow> conv_state option" where
  "convert_i444_to_uyvy input in_linesize y end_y output out_linesize st =
     (let width = unat (min_uint32 (in_linesize ! 0) out_linesize) in
      if y < end_y then
        (let pY = input ! 0 + mul_u32 y (in_linesize ! 0);
             pU = input ! 1 + mul_u32 y (in_linesize ! 1);
             pV = input ! 2 + mul_u32 y (in_linesize ! 2);
             pOut = output + mul_u32 y out_linesize
         in case pack_row 2 0 width pY pU pV pOut st of
              None \<Rightarrow> None
            | Some st' \<Rightarrow>
                convert_i444_to_uyvy input in_linesize (y + 1) end_y output out_linesize st')
      else Some st)"
  by pat_completeness auto
termination
  by (relation "measure (\<lambda>(input, in_linesize, y, end_y, output, out_linesize, st). end_y - y)")
     auto

declare convert_nv12_to_uyvy.simps [simp del]
declare convert_i420_to_uyvy.simps [simp del]
declare convert_i444_to_uyvy.simps [simp del]

text \<open>The destination bytes of row \<open>y\<close> that a routine stores to: \<open>n\<close> bytes from the
  start of the row.\<close>

definition row_bytes :: "ptr \<Rightarrow> u32 \<Rightarrow> nat \<Rightarrow> nat \<Rightarrow> ptr list" where
  "row_bytes output out_linesize n y =
     [output + mul_u32 y out_linesize ..< output + mul_u32 y out_linesize + n]"

text \<open>The number of bytes stored per row: 4 for each started pair of pixels.\<close>

definition bytes_per_row :: "u32 \<Rightarrow> u32 \<Rightarrow> nat" where
  "bytes_per_row in_linesize0 out_linesize =
     4 * ((unat (min_uint32 in_linesize0 out_linesize) + 1) div 2)"

section \<open>Data model\<close>

text \<open>
  The types of this section are declared in the headers of the host (libobs) and of the
  sink library; they are given here with the fields that \<^verbatim>\<open>obs-ndi-output.cpp\<close> reads
  and writes, under the names it uses.

  The host's \<^verbatim>\<open>enum video_format\<close> and the sink's FourCC tags. \<open>FourCC_zero\<close> is the
  value of the field in the zero-filled instance that \<^verbatim>\<open>bzalloc\<close> returns.
\<close>

datatype video_format =
    VIDEO_FORMAT_NONE | VIDEO_FORMAT_I420 | VIDEO_FORMAT_NV12 | VIDEO_FORMAT_YVYU
  | VIDEO_FORMAT_YUY2 | VIDEO_FORMAT_UYVY | VIDEO_FORMAT_RGBA | VIDEO_FORMAT_BGRA
  | VIDEO_FORMAT_BGRX | VIDEO_FORMAT_Y800 | VIDEO_FORMAT_I444

datatype fourcc =
    FourCC_zero | NDIlib_FourCC_type_UYVY | NDIlib_FourCC_type_RGBA
  | NDIlib_FourCC_type_BGRA | NDIlib_FourCC_type_BGRX

record obs_video_info =
  output_format :: video_format
  output_width :: u32
  output_height :: u32
  fps_num :: u32
  fps_den :: u32

record obs_audio_info =
  samples_per_sec :: u32
  speakers :: u32

text \<open>The host's \<^verbatim>\<open>struct video_data\<close> and \<^verbatim>\<open>struct audio_data\<close>.\<close>

record video_data =
  data :: "ptr list"
  linesize :: "u32 list"
  timestamp :: u64

record audio_data =
  audio_planes :: "ptr list"      \<comment> \<open>\<^verbatim>\<open>data\<close>\<close>
  frames :: u32
  audio_timestamp :: u64          \<comment> \<open>\<^verbatim>\<open>timestamp\<close>\<close>

text \<open>
  The sink's frame descriptors. The C \<open>int\<close> fields are kept as their 32-bit patterns and
  read with \<open>sint\<close>. \<^verbatim>\<open>picture_aspect_ratio\<close> (a \<open>float\<close>) and \<^verbatim>\<open>frame_format_type\<close>
  (always progressive) are left out of the descriptor.
\<close>

record NDIlib_video_frame_v2_t =
  xres :: u32
  yres :: u32
  FourCC :: fourcc
  frame_rate_N :: u32
  frame_rate_D :: u32
  timecode :: u64
  p_data :: ptr
  line_stride_in_bytes :: u32

record NDIlib_audio_frame_v2_t =
  sample_rate :: u32
  no_channels :: u32
  no_samples :: u32
  channel_stride_in_bytes :: u32
  audio_timecode :: u64           \<comment> \<open>\<^verbatim>\<open>timecode\<close>\<close>
  audio_p_data :: ptr             \<comment> \<open>\<^verbatim>\<open>p_data\<close>\<close>

text \<open>What the code does to its collaborators, in program order.\<close>

datatype event =
    Send_create string
  | Send_destroy ptr
  | Send_video NDIlib_video_frame_v2_t
  | Send_audio NDIlib_audio_frame_v2_t
  | Bmalloc ptr nat
  | Bfree ptr
  | New_array ptr nat
  | Delete ptr
  | Sleepto u64
  | Begin_data_capture
  | End_data_capture
  | Pthread_create
  | Blog string

datatype thread_state = Not_created | Running | Exited

text \<open>
  \<^verbatim>\<open>struct ndi_output\<close>. \<open>video_frames\<close> is the \<^verbatim>\<open>circlebuf\<close>: only whole descriptors are
  pushed and popped, so its \<open>size / sizeof(NDIlib_video_frame_v2_t)\<close> is the length of the
  list. \<open>video_send_sem\<close> is the count of the semaphore, \<open>video_send_stop_event\<close> whether the
  (auto-reset) event is signalled.
\<close>

record ndi_output =
  ndi_name :: string
  async_sending :: bool
  video_info :: obs_video_info
  audio_info :: obs_audio_info
  started :: bool
  frame_format :: fourcc
  ndi_sender :: ptr
  conv_buffer :: ptr
  conv_linesize :: u32
  video_frames :: "NDIlib_video_frame_v2_t list"
  video_send_thread :: thread_state
  video_send_sem :: nat
  video_send_stop_event :: bool
  last_audio_timestamp :: u64

text \<open>
  The instance together with the part of the process it acts on: the memory, the
  allocator (\<open>brk\<close> is the next fresh address, \<open>live\<close> the blocks allocated and not yet
  released), the monotonic clock and the trace of events.
\<close>

record sys = ndi_output +
  mem :: memory
  brk :: ptr
  live :: "ptr set"
  clock :: u64
  trace :: "event list"

definition emit :: "event \<Rightarrow> sys \<Rightarrow> sys" where
  "emit e s = s\<lparr>trace := trace s @ [e]\<rparr>"

text \<open>\<^verbatim>\<open>bmalloc\<close> returns a block that overlaps no other (and never the null pointer, provided
  \<open>brk\<close> is not 0); \<^verbatim>\<open>bfree(NULL)\<close> does nothing.\<close>

definition bmalloc :: "nat \<Rightarrow> sys \<Rightarrow> ptr \<times> sys" where
  "bmalloc n s =
     (brk s, emit (Bmalloc (brk s) n)
               (s\<lparr>brk := brk s + max n 1, live := insert (brk s) (live s)\<rparr>))"

definition bfree :: "ptr \<Rightarrow> sys \<Rightarrow> sys" where
  "bfree p s = (if p = 0 then s else emit (Bfree p) (s\<lparr>live := live s - {p}\<rparr>))"

text \<open>\<^verbatim>\<open>new uint8_t[n]()\<close> (zero-filled) and \<^verbatim>\<open>delete\<close>.\<close>

definition new_array :: "nat \<Rightarrow> sys \<Rightarrow> ptr \<times> sys" where
  "new_array n s =
     (brk s, emit (New_array (brk s) n)
               (s\<lparr>brk := brk s + max n 1, live := insert (brk s) (live s),
                  mem := (\<lambda>a. if brk s \<le> a \<and> a < brk s + n then 0 else mem s a)\<rparr>))"

definition delete :: "ptr \<Rightarrow> sys \<Rightarrow> sys" where
  "delete p s = (if p = 0 then s else emit (Delete p) (s\<lparr>live := live s - {p}\<rparr>))"

definition memcpy :: "ptr \<Rightarrow> ptr \<Rightarrow> nat \<Rightarrow> memory \<Rightarrow> memory" where
  "memcpy dst src n m = (\<lambda>a. if dst \<le> a \<and> a < dst + n then m (src + (a - dst)) else m a)"

definition os_gettime_ns :: "sys \<Rightarrow> u64" where
  "os_gettime_ns s = clock s"

definition os_sleepto_ns :: "u64 \<Rightarrow> sys \<Rightarrow> sys" where
  "os_sleepto_ns t s = emit (Sleepto t) (s\<lparr>clock := max (clock s) t\<rparr>)"

section \<open>Delivery thread\<close>

text \<open>
  One pass through the loop of \<^verbatim>\<open>ndi_videosend_thread\<close>, from \<^verbatim>\<open>os_sem_wait\<close> to
  \<^verbatim>\<open>os_sleepto_ns\<close>. The result is \<open>(True, s')\<close> when the loop goes round again and
  \<open>(False, s')\<close> when it is left by \<^verbatim>\<open>break\<close>. A wait on a semaphore whose count is 0
  does not return.
\<close>

definition videosend_iteration :: "sys \<Rightarrow> error + bool \<times> sys" where
  "videosend_iteration s =
     (if video_send_sem s = 0 then Inl Sem_blocked
      else
        let s = s\<lparr>video_send_sem := video_send_sem s - 1\<rparr> in
        if video_send_stop_event s then Inr (False, s\<lparr>video_send_stop_event := False\<rparr>)
        else
          case video_frames s of
            [] \<Rightarrow> Inl Pop_empty
          | video_frame # rest \<Rightarrow>
              let s = s\<lparr>video_frames := rest\<rparr> in
              case frame_time_of (frame_rate_N video_frame) (frame_rate_D video_frame) of
                Inl e \<Rightarrow> Inl e
              | Inr frame_duration \<Rightarrow>
                  let next_frame = os_gettime_ns s + word_of_int frame_duration;
                      s = (if p_data video_frame \<noteq> 0
                           then bfree (p_data video_frame) (emit (Send_video video_frame) s)
                           else s)
                  in Inr (True, os_sleepto_ns next_frame s))"

function videosend_loop :: "sys \<Rightarrow> error + sys" where
  "videosend_loop s =
     (case videosend_iteration s of
        Inl e \<Rightarrow> Inl e
      | Inr (again, s') \<Rightarrow> if again then videosend_loop s' else Inr s')"
  by pat_completeness auto
termination
  by (relation "measure video_send_sem")
     (auto simp: videosend_iteration_def Let_def bfree_def emit_def os_sleepto_ns_def
           split: if_splits list.splits sum.splits)

declare videosend_loop.simps [simp del]

text \<open>\<^verbatim>\<open>while (o->video_frames.size > 0) { pop; bfree(flushed_frame.p_data); }\<close>\<close>

function flush_frames :: "sys \<Rightarrow> sys" where
  "flush_frames s =
     (case video_frames s of
        [] \<Rightarrow> s
      | flushed_frame # rest \<Rightarrow>
          flush_frames (bfree (p_data flushed_frame) (s\<lparr>video_frames := rest\<rparr>)))"
  by pat_completeness auto
termination
  by (relation "measure (\<lambda>s. length (video_frames s))") (auto simp: bfree_def emit_def)

declare flush_frames.simps [simp del]

definition ndi_videosend_thread :: "sys \<Rightarrow> error + sys" where
  "ndi_videosend_thread s =
     (case videosend_loop s of
        Inl e \<Rightarrow> Inl e
      | Inr s' \<Rightarrow> Inr (flush_frames s'))"

section \<open>Output lifecycle\<close>

text \<open>What the host and the sink answer during \<^verbatim>\<open>ndi_output_start\<close>: the negotiated
  formats, the handle returned by \<^verbatim>\<open>NDIlib_send_create\<close> (0 when creation fails) and the
  result of \<^verbatim>\<open>obs_output_begin_data_capture\<close>.\<close>

record start_env =
  host_video_info :: obs_video_info
  host_audio_info :: obs_audio_info
  created_sender :: ptr
  capture_begun :: bool

text \<open>The \<^verbatim>\<open>switch\<close> on the output format. A format with no \<^verbatim>\<open>case\<close> changes nothing.\<close>

definition select_format :: "sys \<Rightarrow> sys" where
  "select_format s =
     (case output_format (video_info s) of
        VIDEO_FORMAT_NV12 \<Rightarrow>
          (let s = s\<lparr>frame_format := NDIlib_FourCC_type_UYVY,
                      conv_linesize := output_width (video_info s) * 2\<rparr>;
               (p, s) = new_array (unat (output_height (video_info s) * conv_linesize s * 2)) s
           in s\<lparr>conv_buffer := p\<rparr>)
      | VIDEO_FORMAT_I420 \<Rightarrow>
          (let s = s\<lparr>frame_format := NDIlib_FourCC_type_UYVY,
                      conv_linesize := output_width (video_info s) * 2\<rparr>;
               (p, s) = new_array (unat (output_height (video_info s) * conv_linesize s * 2)) s
           in s\<lparr>conv_buffer := p\<rparr>)
      | VIDEO_FORMAT_I444 \<Rightarrow>
          (let s = s\<lparr>frame_format := NDIlib_FourCC_type_UYVY,
                      conv_linesize := output_width (video_info s) * 2\<rparr>;
               (p, s) = new_array (unat (output_height (video_info s) * conv_linesize s * 2)) s
           in s\<lparr>conv_buffer := p\<rparr>)
      | VIDEO_FORMAT_RGBA \<Rightarrow> s\<lparr>frame_format := NDIlib_FourCC_type_RGBA\<rparr>
      | VIDEO_FORMAT_BGRA \<Rightarrow> s\<lparr>frame_format := NDIlib_FourCC_type_BGRA\<rparr>
      | VIDEO_FORMAT_BGRX \<Rightarrow> s\<lparr>frame_format := NDIlib_FourCC_type_BGRX\<rparr>
      | _ \<Rightarrow> s)"

definition ndi_output_start :: "start_env \<Rightarrow> sys \<Rightarrow> bool \<times> sys" where
  "ndi_output_start env s =
     (let s = emit (Send_destroy (ndi_sender s)) s;
          s = delete (conv_buffer s) s;
          s = s\<lparr>video_info := host_video_info env, audio_info := host_audio_info env\<rparr>;
          s = select_format s;
          s = emit (Send_create (ndi_name s)) s;
          s = s\<lparr>ndi_sender := created_sender env\<rparr>;
          s = (if ndi_sender s \<noteq> 0 then
                 (let s = emit Begin_data_capture s;
                      s = s\<lparr>started := capture_begun env\<rparr>
                  in if started s then
                       (let s = emit Pthread_create (s\<lparr>video_send_thread := Running\<rparr>)
                        in if async_sending s
                           then emit (Blog ''asynchronous video sending enabled'') s
                           else emit (Blog ''asynchronous video sending disabled'') s)
                     else s)
               else s)
      in (started s, s))"

text \<open>\<^verbatim>\<open>pthread_join\<close>: the caller waits until the thread function has returned. The thread
  is taken at the head of its loop.\<close>

definition pthread_join :: "sys \<Rightarrow> error + sys" where
  "pthread_join s =
     (if video_send_thread s \<noteq> Running then Inl Join_no_thread
      else case ndi_videosend_thread s of
             Inl e \<Rightarrow> Inl e
           | Inr s' \<Rightarrow> Inr (s'\<lparr>video_send_thread := Exited\<rparr>))"

definition ndi_output_stop :: "sys \<Rightarrow> u64 \<Rightarrow> error + sys" where
  "ndi_output_stop s ts =
     (let s = s\<lparr>started := False\<rparr>;
          s = emit End_data_capture s;
          s = s\<lparr>video_send_stop_event := True\<rparr>;
          s = s\<lparr>video_send_sem := video_send_sem s + 1\<rparr>
      in case pthread_join s of
           Inl e \<Rightarrow> Inl e
         | Inr s \<Rightarrow>
             (let s = emit (Send_destroy (ndi_sender s)) s;
                  s = delete (conv_buffer s) s
              in Inr (s\<lparr>conv_buffer := 0\<rparr>)))"

definition ndi_output_update :: "sys \<Rightarrow> string \<Rightarrow> bool \<Rightarrow> sys" where
  "ndi_output_update s name async = s\<lparr>ndi_name := name, async_sending := async\<rparr>"

text \<open>\<^verbatim>\<open>ndi_output_create\<close>: a zero-filled instance with an empty queue, a semaphore at 0 and
  an unsignalled event, in the given surroundings.\<close>

definition ndi_output_create :: "string \<Rightarrow> bool \<Rightarrow> memory \<Rightarrow> ptr \<Rightarrow> ptr set \<Rightarrow> u64 \<Rightarrow> sys" where
  "ndi_output_create name async m b l c =
     ndi_output_update
       \<lparr>ndi_name = [], async_sending = False,
        video_info = \<lparr>output_format = VIDEO_FORMAT_NONE, output_width = 0, output_height = 0,
                      fps_num = 0, fps_den = 0\<rparr>,
        audio_info = \<lparr>samples_per_sec = 0, speakers = 0\<rparr>,
        started = False, frame_format = FourCC_zero, ndi_sender = 0, conv_buffer = 0,
        conv_linesize = 0, video_frames = [], video_send_thread = Not_created,
        video_send_sem = 0, video_send_stop_event = False, last_audio_timestamp = 0,
        mem = m, brk = b, live = l, clock = c, trace = []\<rparr>
       name async"

section \<open>Raw video: conversion, copy, drift correction, admission\<close>

text \<open>The conversion step: for a UYVY output the frame is converted into \<open>conv_buffer\<close>
  (by the routine of the source format, if it is one of the three), otherwise the host's
  first plane is used as it is.\<close>

definition convert_frame ::
  "sys \<Rightarrow> video_data \<Rightarrow> NDIlib_video_frame_v2_t \<Rightarrow> error + sys \<times> NDIlib_video_frame_v2_t" where
  "convert_frame s frame video_frame =
     (if FourCC video_frame = NDIlib_FourCC_type_UYVY then
        (let source_f = output_format (video_info s);
             height = unat (output_height (video_info s));
             converted =
               (if source_f = VIDEO_FORMAT_NV12 then
                  convert_nv12_to_uyvy (data frame) (linesize frame) 0 height
                    (conv_buffer s) (conv_linesize s) (mem s, [])
                else if source_f = VIDEO_FORMAT_I420 then
                  convert_i420_to_uyvy (data frame) (linesize frame) 0 height
                    (conv_buffer s) (conv_linesize s) (mem s, [])
                else if source_f = VIDEO_FORMAT_I444 then
                  convert_i444_to_uyvy (data frame) (linesize frame) 0 height
                    (conv_buffer s) (conv_linesize s) (mem s, [])
                else Some (mem s, []))
         in case converted of
              None \<Rightarrow> Inl Loop_diverges
            | Some (m, stored) \<Rightarrow>
                Inr (s\<lparr>mem := m\<rparr>,
                     video_frame\<lparr>p_data := conv_buffer s,
                                 line_stride_in_bytes := conv_linesize s\<rparr>))
      else Inr (s, video_frame\<lparr>p_data := data frame ! 0,
                               line_stride_in_bytes := linesize frame ! 0\<rparr>))"

text \<open>\<^verbatim>\<open>for (i = 0; i < frames_to_pop; i++) { pop; os_sem_wait; bfree(popped_frame.p_data); }\<close>\<close>

primrec pop_frames :: "nat \<Rightarrow> sys \<Rightarrow> error + sys" where
  "pop_frames 0 s = Inr s"
| "pop_frames (Suc n) s =
     (case video_frames s of
        [] \<Rightarrow> Inl Pop_empty
      | popped_frame # rest \<Rightarrow>
          if video_send_sem s = 0 then Inl Sem_blocked
          else pop_frames n
                 (bfree (p_data popped_frame)
                    (s\<lparr>video_frames := rest, video_send_sem := video_send_sem s - 1\<rparr>)))"

text \<open>\<^verbatim>\<open>for (i = 0; i < add_delay_frames; i++) { filler = video_frame; filler.p_data = nullptr;
  push; os_sem_post; }\<close>\<close>

primrec push_fillers :: "nat \<Rightarrow> NDIlib_video_frame_v2_t \<Rightarrow> sys \<Rightarrow> sys" where
  "push_fillers 0 video_frame s = s"
| "push_fillers (Suc n) video_frame s =
     push_fillers n video_frame
       (s\<lparr>video_frames := video_frames s @ [video_frame\<lparr>p_data := 0\<rparr>],
          video_send_sem := video_send_sem s + 1\<rparr>)"

text \<open>The two branches on \<open>add_delay_frames\<close>: drop queued frames when it is negative,
  insert fillers when it is positive.
  \<^verbatim>\<open>
  if (add_delay_frames < 0) {
      size_t frames_to_pop = min_int(abs(add_delay_frames), (int)current_delay_frames);
      for (...) { ... }
  }
  else if (add_delay_frames > 0) {
      for (...) { ... }
  }
  \<close>\<close>

definition correct_drift ::
  "int \<Rightarrow> nat \<Rightarrow> NDIlib_video_frame_v2_t \<Rightarrow> sys \<Rightarrow> error + sys" where
  "correct_drift add_delay_frames current_delay_frames video_frame s =
     (if add_delay_frames < 0 then
        (let frames_to_pop =
               nat (to_uint64 (min_int (to_int32 \<bar>add_delay_frames\<bar>)
                                  (to_int32 (int current_delay_frames))))
         in pop_frames frames_to_pop s)
      else if add_delay_frames > 0 then
        Inr (push_fillers (nat add_delay_frames) video_frame s)
      else Inr s)"

text \<open>\<open>required_delay_frames\<close> for an incoming frame: \<open>frame_time\<close> is taken from the
  rate fields of the descriptor, the buffering from the frame's timestamp and the last
  audio timestamp.\<close>

definition required_delay_frames :: "NDIlib_video_frame_v2_t \<Rightarrow> u64 \<Rightarrow> u64 \<Rightarrow> error + int" where
  "required_delay_frames video_frame frame_timestamp last_audio =
     (case frame_time_of (frame_rate_N video_frame) (frame_rate_D video_frame) of
        Inl e \<Rightarrow> Inl e
      | Inr frame_time \<Rightarrow>
          required_delay_frames_of (audio_buffering_of frame_timestamp last_audio) frame_time)"

text \<open>The descriptor as it is filled in before the conversion; the timecode is the
  timestamp divided by \<open>100.0\<close> and truncated (the division is done on \<open>double\<close>s in the
  source, which agrees with the integer quotient for timestamps below \<open>2 ^ 53\<close>).\<close>

definition describe_frame :: "sys \<Rightarrow> video_data \<Rightarrow> NDIlib_video_frame_v2_t" where
  "describe_frame s frame =
     \<lparr>xres = output_width (video_info s), yres = output_height (video_info s),
      FourCC = frame_format s,
      frame_rate_N = fps_num (video_info s), frame_rate_D = fps_den (video_info s),
      timecode = word_of_nat (unat (timestamp frame) div 100),
      p_data = 0, line_stride_in_bytes = 0\<rparr>"

definition ndi_output_rawvideo :: "sys \<Rightarrow> video_data \<Rightarrow> error + sys" where
  "ndi_output_rawvideo s frame =
     (if \<not> started s then Inr s
      else
        let frames_waiting = length (video_frames s) in
        if frames_waiting \<ge> MAX_BUFFERING_FRAMES then Inr s
        else
          case convert_frame s frame (describe_frame s frame) of
            Inl e \<Rightarrow> Inl e
          | Inr (s, video_frame) \<Rightarrow>
              let video_bytes =
                    nat (to_uint64 (to_int32 (sint (line_stride_in_bytes video_frame)
                                               * sint (yres video_frame))));
                  (video_data, s) = bmalloc video_bytes s;
                  s = s\<lparr>mem := memcpy video_data (p_data video_frame) video_bytes (mem s)\<rparr>;
                  video_frame = video_frame\<lparr>p_data := video_data\<rparr>
              in
              case required_delay_frames video_frame (timestamp frame)
                     (last_audio_timestamp s) of
                Inl e \<Rightarrow> Inl e
              | Inr required \<Rightarrow>
                  let current_delay_frames = length (video_frames s);
                      add_delay_frames =
                        to_int32 (required - to_int32 (int current_delay_frames))
                  in
                  case correct_drift add_delay_frames current_delay_frames video_frame s of
                    Inl e \<Rightarrow> Inl e
                  | Inr s \<Rightarrow>
                      Inr (s\<lparr>video_frames := video_frames s @ [video_frame],
                             video_send_sem := video_send_sem s + 1\<rparr>))"

section \<open>Raw audio\<close>

text \<open>\<^verbatim>\<open>for (int i = 0; i < no_channels; i++) memcpy(&audio_data[i * stride], frame->data[i],
  stride);\<close> with \<open>i\<close> counting up from \<open>no_channels - n\<close>.\<close>

primrec copy_channels :: "nat \<Rightarrow> nat \<Rightarrow> ptr \<Rightarrow> ptr list \<Rightarrow> int \<Rightarrow> memory \<Rightarrow> memory" where
  "copy_channels 0 i audio_data planes stride m = m"
| "copy_channels (Suc n) i audio_data planes stride m =
     copy_channels n (i + 1) audio_data planes stride
       (memcpy (audio_data + nat (to_uint64 (to_int32 (int i * stride)))) (planes ! i)
          (nat (to_uint64 stride)) m)"

definition ndi_output_rawaudio :: "sys \<Rightarrow> audio_data \<Rightarrow> sys" where
  "ndi_output_rawaudio s frame =
     (if \<not> started s then s
      else
        let stride = to_int32 (int (unat (frames frame * 4)));
            channels = sint (speakers (audio_info s));
            data_size = nat (to_uint64 (to_int32 (channels * stride)));
            (audio_data, s) = bmalloc data_size s;
            s = s\<lparr>mem := copy_channels (nat channels) 0 audio_data (audio_planes frame)
                            stride (mem s)\<rparr>;
            audio_frame =
              \<lparr>sample_rate = samples_per_sec (audio_info s),
               no_channels = speakers (audio_info s),
               no_samples = frames frame,
               channel_stride_in_bytes = frames frame * 4,
               audio_timecode = word_of_nat (unat (audio_timestamp frame) div 100),
               audio_p_data = audio_data\<rparr>;
            s = emit (Send_audio audio_frame) s;
            s = bfree audio_data s
        in s\<lparr>last_audio_timestamp := audio_timestamp frame\<rparr>)"

section \<open>Runs of the started output\<close>

text \<open>What can happen to a started output before it is stopped: the host delivers a video
  or an audio frame, the delivery thread makes one pass through its loop (after a pass
  that leaves the loop it flushes the queue), or time passes.\<close>

datatype call =
    Raw_video video_data
  | Raw_audio audio_data
  | Thread_pass
  | Time_passes u64

fun do_call :: "call \<Rightarrow> sys \<Rightarrow> error + sys" where
  "do_call (Raw_video frame) s = ndi_output_rawvideo s frame"
| "do_call (Raw_audio frame) s = Inr (ndi_output_rawaudio s frame)"
| "do_call Thread_pass s =
     (case videosend_iteration s of
        Inl e \<Rightarrow> Inl e
      | Inr (again, s') \<Rightarrow> if again then Inr s' else Inr (flush_frames s'))"
| "do_call (Time_passes dt) s = Inr (s\<lparr>clock := clock s + dt\<rparr>)"

fun run :: "call list \<Rightarrow> sys \<Rightarrow> error + sys" where
  "run [] s = Inr s"
| "run (c # cs) s = (case do_call c s of Inl e \<Rightarrow> Inl e | Inr s' \<Rightarrow> run cs s')"

text \<open>The pixel buffers the queue refers to (fillers have none).\<close>

definition queued_buffers :: "sys \<Rightarrow> ptr list" where
  "queued_buffers s = filter (\<lambda>p. p \<noteq> 0) (map p_data (video_frames s))"

section \<open>Example configurations\<close>

text \<open>A 2 by 2 BGRA output at 30/1 frames per second whose sender is created, and the
  same negotiation with 4:2:0 semi-planar video whose sender cannot be created.\<close>

definition bgra_env :: start_env where
  "bgra_env =
     \<lparr>host_video_info = \<lparr>output_format = VIDEO_FORMAT_BGRA, output_width = 2,
                           output_height = 2, fps_num = 30, fps_den = 1\<rparr>,
      host_audio_info = \<lparr>samples_per_sec = 48000, speakers = 2\<rparr>,
      created_sender = 7, capture_begun = True\<rparr>"

definition nv12_env_no_sender :: start_env where
  "nv12_env_no_sender =
     \<lparr>host_video_info = \<lparr>output_format = VIDEO_FORMAT_NV12, output_width = 2,
                           output_height = 2, fps_num = 30, fps_den = 1\<rparr>,
      host_audio_info = \<lparr>samples_per_sec = 48000, speakers = 2\<rparr>,
      created_sender = 0, capture_begun = True\<rparr>"

definition blank_memory :: memory where
  "blank_memory a = 0"

definition fresh_output :: sys where
  "fresh_output = ndi_output_create ''cam'' False blank_memory 1000 {} 0"

definition started_output :: sys where
  "started_output = snd (ndi_output_start bgra_env fresh_output)"

text \<open>A host frame of 2 rows of 8 bytes at address 100, stamped \<open>t\<close> nanoseconds.\<close>

definition host_frame :: "u64 \<Rightarrow> video_data" where
  "host_frame t = \<lparr>data = [100, 0, 0, 0, 0, 0, 0, 0],
                   linesize = [8, 0, 0, 0, 0, 0, 0, 0], timestamp = t\<rparr>"

definition host_audio :: "u64 \<Rightarrow> audio_data" where
  "host_audio t = \<lparr>audio_planes = [200, 300, 0, 0, 0, 0, 0, 0], frames = 4,
                   audio_timestamp = t\<rparr>"

text \<open>The started output with 60 descriptors waiting.\<close>

definition full_output :: sys where
  "full_output =
     started_output\<lparr>video_frames := replicate 60 (describe_frame started_output (host_frame 0)),
                     video_send_sem := 60\<rparr>"

text \<open>The started output with one real frame waiting, its pixels in a block at 1000.\<close>

definition queued_output :: sys where
  "queued_output =
     started_output\<lparr>video_frames :=
                       [(describe_frame started_output (host_frame 0))
                          \<lparr>p_data := 1000, line_stride_in_bytes := 8\<rparr>],
                     video_send_sem := 1, brk := 1016, live := {1000}\<rparr>"

text \<open>The events between two states of one execution.\<close>

definition events_since :: "sys \<Rightarrow> sys \<Rightarrow> event list" where
  "events_since s s' = drop (length (trace s)) (trace s')"

text \<open>
  Ownership of the pixel buffers: the blocks the queue refers to are pairwise different and
  live, the live blocks are these and the set \<open>others\<close> (blocks held for other purposes,
  such as the conversion buffer), and the allocator's next address is above every live
  block.
\<close>

definition queue_owned :: "ptr set \<Rightarrow> sys \<Rightarrow> bool" where
  "queue_owned others s \<longleftrightarrow>
     distinct (queued_buffers s) \<and>
     live s = others \<union> set (queued_buffers s) \<and>
     others \<inter> set (queued_buffers s) = {} \<and>
     (\<forall>p \<in> live s. p < brk s) \<and> 0 < brk s"

section \<open>Properties: arithmetic of pacing and drift\<close>

lemmas example_defs =
  started_output_def fresh_output_def ndi_output_start_def ndi_output_create_def
  ndi_output_update_def bgra_env_def emit_def delete_def select_format_def Let_def

lemma started_output_fields:
  "started started_output"
  "video_frames started_output = []"
  "frame_format started_output = NDIlib_FourCC_type_BGRA"
  "last_audio_timestamp started_output = 0"
  "video_info started_output = host_video_info bgra_env"
  "video_send_thread started_output = Running"
  by (simp_all add: example_defs)

lemma started_output_env:
  "video_send_stop_event started_output = False"
  "trace started_output =
     [Send_destroy 0, Send_create ''cam'', Begin_data_capture, Pthread_create,
      Blog ''asynchronous video sending disabled'']"
  "clock started_output = 0"
  "video_send_sem started_output = 0"
  "brk started_output = 1000"
  "live started_output = {}"
  "conv_buffer started_output = 0"
  "conv_linesize started_output = 0"
  "ndi_sender started_output = 7"
  "audio_info started_output = host_audio_info bgra_env"
  by (simp_all add: example_defs)

text \<open>
  Claim C2. The delivery thread is to compute a frame duration of \<open>1e9 * D / N\<close>
  nanoseconds for the rate \<open>N/D\<close>. At the rate 30000/1001 the code first divides 30000 by
  1001 as integers, which gives 29, and so computes 34482758 nanoseconds, where
  \<open>1e9 * 1001 / 30000\<close> is 33366666 (rounded down).
\<close>

theorem frame_duration_ntsc:
  "frame_time_of 30000 1001 = Inr 34482758 \<and>
   (1000000000 * 1001) div 30000 = (33366666 :: int)"
  by (simp add: frame_time_of_def to_uint64_def signed_divide_int_def)

text \<open>
  Claim C3. The required delay is to be \<open>max(0, t - a)\<close> divided by the frame duration. For
  a video frame stamped 5 seconds on the started 30/1 output that has seen no audio
  (\<open>a = 0\<close>), the audio buffering is 5000000000 ns and the quotient by the frame time
  33333333 is 150; the code converts the buffering to a 32-bit \<open>int\<close> before dividing and
  obtains 21.
\<close>

theorem required_delay_truncated:
  "required_delay_frames (describe_frame started_output (host_frame 5000000000))
     (timestamp (host_frame 5000000000)) (last_audio_timestamp started_output) = Inr 21 \<and>
   frame_time_of 30 1 = Inr 33333333 \<and>
   audio_buffering_of 5000000000 0 = 5000000000 \<and>
   (5000000000 :: int) div 33333333 = 150"
  by (simp add: required_delay_frames_def describe_frame_def started_output_fields
        bgra_env_def host_frame_def frame_time_of_def to_uint64_def signed_divide_int_def required_delay_frames_of_def
        audio_buffering_of_def to_int64_def to_int32_def)

section \<open>Properties: pixel converter\<close>

lemma upt4: "[p, p + 1, p + 2, p + 3] @ [p + 4 ..< p + 4 + k] = [p ..< p + (4 + k)]"
  by (simp add: upt_rec [of p] upt_rec [of "Suc p"] upt_rec [of "Suc (Suc p)"]
        upt_rec [of "Suc (Suc (Suc p))"] numeral_eq_Suc)

lemma pairs_left:
  assumes "x < width"
  shows "(width - x + 1) div 2 = Suc ((width - (x + 2) + 1) div 2)"
proof -
  from assms obtain d where w: "width = Suc (x + d)"
    using less_imp_Suc_add by blast
  show ?thesis by (cases d) (simp_all add: w)
qed

lemma pack_row_step:
  "x < width \<Longrightarrow> x + 2 < 2 ^ 32 \<Longrightarrow>
   pack_row cstep x width pY pU pV pOut (m, stored) =
   pack_row cstep (x + 2) width (pY + 2) (pU + cstep) (pV + cstep) (pOut + 4)
     (let m1 = m(pOut := m pU);
          m2 = m1(pOut + 1 := m1 pY);
          m3 = m2(pOut + 2 := m2 pV)
      in m3(pOut + 3 := m3 (pY + 1)), stored @ [pOut, pOut + 1, pOut + 2, pOut + 3])"
  by (subst pack_row.simps) (simp add: Let_def)

lemma pack_row_exit: "\<not> x < width \<Longrightarrow> pack_row cstep x width pY pU pV pOut st = Some st"
  by (cases st) (simp add: pack_row.simps)

lemma pack_row_stored:
  "width < 2 ^ 32 - 1 \<Longrightarrow>
   \<exists>m'. pack_row cstep x width pY pU pV pOut (m, stored) =
     Some (m', stored @ [pOut ..< pOut + 4 * ((width - x + 1) div 2)])"
proof (induction "width - x" arbitrary: x pY pU pV pOut m stored rule: less_induct)
  case less
  show ?case
  proof (cases "x < width")
    case False
    then show ?thesis by (simp add: pack_row_exit)
  next
    case True
    with less.prems have nowrap: "x + 2 < 2 ^ 32" by simp
    have dec: "width - (x + 2) < width - x" using True by simp
    from less.hyps [OF dec less.prems]
    obtain m' where
      "pack_row cstep (x + 2) width (pY + 2) (pU + cstep) (pV + cstep) (pOut + 4)
         (let m1 = m(pOut := m pU);
              m2 = m1(pOut + 1 := m1 pY);
              m3 = m2(pOut + 2 := m2 pV)
          in m3(pOut + 3 := m3 (pY + 1)), stored @ [pOut, pOut + 1, pOut + 2, pOut + 3]) =
       Some (m', (stored @ [pOut, pOut + 1, pOut + 2, pOut + 3]) @
                 [pOut + 4 ..< pOut + 4 + 4 * ((width - (x + 2) + 1) div 2)])"
      by blast
    moreover have "[pOut, pOut + 1, pOut + 2, pOut + 3] @
                 [pOut + 4 ..< pOut + 4 + 4 * ((width - (x + 2) + 1) div 2)]
        = [pOut ..< pOut + 4 * ((width - x + 1) div 2)]"
      by (simp only: upt4 pairs_left [OF True] mult_Suc_right)
    ultimately show ?thesis
      by (simp only: pack_row_step [OF True nowrap] append_assoc) blast
  qed
qed

lemma pack_row_from_0:
  assumes "unat (min_uint32 l0 ols) < 2 ^ 32 - 1"
  shows "\<exists>m'. pack_row cstep 0 (unat (min_uint32 l0 ols)) pY pU pV (output + mul_u32 y ols)
             (m, stored) =
           Some (m', stored @ row_bytes output ols (bytes_per_row l0 ols) y)"
  using pack_row_stored [OF assms, of cstep 0 pY pU pV "output + mul_u32 y ols" m stored]
  by (simp add: row_bytes_def bytes_per_row_def)

lemma nv12_stored:
  assumes w: "unat (min_uint32 (in_linesize ! 0) out_linesize) < 2 ^ 32 - 1"
  shows "\<exists>m'. convert_nv12_to_uyvy input in_linesize y end_y output out_linesize (m, stored) =
     Some (m', stored @ concat (map (row_bytes output out_linesize
                                       (bytes_per_row (in_linesize ! 0) out_linesize))
                                    [y ..< end_y]))"
proof (induction "end_y - y" arbitrary: y m stored rule: less_induct)
  case less
  show ?case
  proof (cases "y < end_y")
    case False
    then show ?thesis by (subst convert_nv12_to_uyvy.simps) simp
  next
    case True
    obtain m1 where row:
      "pack_row 2 0 (unat (min_uint32 (in_linesize ! 0) out_linesize))
         (input ! 0 + mul_u32 y (in_linesize ! 0))
         (input ! 1 + mul_u32 (y div 2) (in_linesize ! 1))
         (input ! 1 + mul_u32 (y div 2) (in_linesize ! 1) + 1)
         (output + mul_u32 y out_linesize) (m, stored) =
       Some (m1, stored @ row_bytes output out_linesize
                            (bytes_per_row (in_linesize ! 0) out_linesize) y)"
      using pack_row_from_0 [OF w] by blast
    have dec: "end_y - (y + 1) < end_y - y" using True by simp
    from less.hyps [OF dec] obtain m' where rest:
      "convert_nv12_to_uyvy input in_linesize (y + 1) end_y output out_linesize
         (m1, stored @ row_bytes output out_linesize
                         (bytes_per_row (in_linesize ! 0) out_linesize) y) =
       Some (m', (stored @ row_bytes output out_linesize
                         (bytes_per_row (in_linesize ! 0) out_linesize) y) @
                 concat (map (row_bytes output out_linesize
                                (bytes_per_row (in_linesize ! 0) out_linesize))
                             [y + 1 ..< end_y]))"
      by blast
    show ?thesis
      using True row rest
      by (subst convert_nv12_to_uyvy.simps) (simp add: Let_def upt_conv_Cons)
  qed
qed

lemma i420_stored:
  assumes w: "unat (min_uint32 (in_linesize ! 0) out_linesize) < 2 ^ 32 - 1"
  shows "\<exists>m'. convert_i420_to_uyvy input in_linesize y end_y output out_linesize (m, stored) =
     Some (m', stored @ concat (map (row_bytes output out_linesize
                                       (bytes_per_row (in_linesize ! 0) out_linesize))
                                    [y ..< end_y]))"
proof (induction "end_y - y" arbitrary: y m stored rule: less_induct)
  case less
  show ?case
  proof (cases "y < end_y")
    case False
    then show ?thesis by (subst convert_i420_to_uyvy.simps) simp
  next
    case True
    obtain m1 where row:
      "pack_row 1 0 (unat (min_uint32 (in_linesize ! 0) out_linesize))
         (input ! 0 + mul_u32 y (in_linesize ! 0))
         (input ! 1 + mul_u32 (y div 2) (in_linesize ! 1))
         (input ! 2 + mul_u32 (y div 2) (in_linesize ! 2))
         (output + mul_u32 y out_linesize) (m, stored) =
       Some (m1, stored @ row_bytes output out_linesize
                            (bytes_per_row (in_linesize ! 0) out_linesize) y)"
      using pack_row_from_0 [OF w] by blast
    have dec: "end_y - (y + 1) < end_y - y" using True by simp
    from less.hyps [OF dec] obtain m' where rest:
      "convert_i420_to_uyvy input in_linesize (y + 1) end_y output out_linesize
         (m1, stored @ row_bytes output out_linesize
                         (bytes_per_row (in_linesize ! 0) out_linesize) y) =
       Some (m', (stored @ row_bytes output out_linesize
                         (bytes_per_row (in_linesize ! 0) out_linesize) y) @
                 concat (map (row_bytes output out_linesize
                                (bytes_per_row (in_linesize ! 0) out_linesize))
                             [y + 1 ..< end_y]))"
      by blast
    show ?thesis
      using True row rest
      by (subst convert_i420_to_uyvy.simps) (simp add: Let_def upt_conv_Cons)
  qed
qed

lemma i444_stored:
  assumes w: "unat (min_uint32 (in_linesize ! 0) out_linesize) < 2 ^ 32 - 1"
  shows "\<exists>m'. convert_i444_to_uyvy input in_linesize y end_y output out_linesize (m, stored) =
     Some (m', stored @ concat (map (row_bytes output out_linesize
                                       (bytes_per_row (in_linesize ! 0) out_linesize))
                                    [y ..< end_y]))"
proof (induction "end_y - y" arbitrary: y m stored rule: less_induct)
  case less
  show ?case
  proof (cases "y < end_y")
    case False
    then show ?thesis by (subst convert_i444_to_uyvy.simps) simp
  next
    case True
    obtain m1 where row:
      "pack_row 2 0 (unat (min_uint32 (in_linesize ! 0) out_linesize))
         (input ! 0 + mul_u32 y (in_linesize ! 0))
         (input ! 1 + mul_u32 y (in_linesize ! 1))
         (input ! 2 + mul_u32 y (in_linesize ! 2))
         (output + mul_u32 y out_linesize) (m, stored) =
       Some (m1, stored @ row_bytes output out_linesize
                            (bytes_per_row (in_linesize ! 0) out_linesize) y)"
      using pack_row_from_0 [OF w] by blast
    have dec: "end_y - (y + 1) < end_y - y" using True by simp
    from less.hyps [OF dec] obtain m' where rest:
      "convert_i444_to_uyvy input in_linesize (y + 1) end_y output out_linesize
         (m1, stored @ row_bytes output out_linesize
                         (bytes_per_row (in_linesize ! 0) out_linesize) y) =
       Some (m', (stored @ row_bytes output out_linesize
                         (bytes_per_row (in_linesize ! 0) out_linesize) y) @
                 concat (map (row_bytes output out_linesize
                                (bytes_per_row (in_linesize ! 0) out_linesize))
                             [y + 1 ..< end_y]))"
      by blast
    show ?thesis
      using True row rest
      by (subst convert_i444_to_uyvy.simps) (simp add: Let_def upt_conv_Cons)
  qed
qed


lemma length_concat_rows:
  "length (concat (map (\<lambda>y. [f y ..< f y + n]) ys)) = length ys * n"
  by (induction ys) simp_all

lemma row_bytes_exact:
  assumes "end_y * unat out_linesize < 2 ^ 32"
  shows "map (row_bytes output out_linesize n) [start_y ..< end_y] =
         map (\<lambda>y. [output + y * unat out_linesize ..< output + y * unat out_linesize + n])
             [start_y ..< end_y]"
proof (rule map_cong [OF refl])
  fix y assume "y \<in> set [start_y ..< end_y]"
  then have "y * unat out_linesize \<le> end_y * unat out_linesize"
    by (simp add: mult_le_mono1)
  then have "y * unat out_linesize < 2 ^ 32" using assms by (rule le_less_trans)
  then show "row_bytes output out_linesize n y =
     [output + y * unat out_linesize ..< output + y * unat out_linesize + n]"
    by (simp add: row_bytes_def mul_u32_def)
qed

lemma rows_in_range:
  assumes "n \<le> l" and "a \<in> set (concat (map (\<lambda>y. [output + y * l ..< output + y * l + n])
                                            [start_y ..< end_y]))"
  shows "output + start_y * l \<le> a \<and> a < output + end_y * l"
proof -
  from assms(2) obtain y where y: "start_y \<le> y" "y < end_y"
    and a: "output + y * l \<le> a" "a < output + y * l + n"
    by auto
  have "start_y * l \<le> y * l" using y(1) by (rule mult_le_mono1)
  moreover have "Suc y * l \<le> end_y * l" using y(2) by (intro mult_le_mono1) simp
  then have "y * l + l \<le> end_y * l" by simp
  ultimately show ?thesis using a assms(1) by linarith
qed

lemma fits_width:
  assumes "bytes_per_row l0 ols \<le> unat ols"
  shows "unat (min_uint32 l0 ols) < 2 ^ 32 - 1"
proof -
  have "unat ols < 2 ^ 32" using unsigned_less [of ols] by simp
  moreover have "unat (min_uint32 l0 ols) \<le> 2 * ((unat (min_uint32 l0 ols) + 1) div 2)"
    by simp
  ultimately show ?thesis using assms by (simp add: bytes_per_row_def)
qed

lemma rows_distinct:
  assumes "n \<le> l"
  shows "distinct (concat (map (\<lambda>y. [output + y * l ..< output + y * l + n])
                               [start_y ..< end_y]))"
proof (induction end_y)
  case 0
  show ?case by simp
next
  case (Suc e)
  show ?case
  proof (cases "start_y \<le> e")
    case False
    then show ?thesis by simp
  next
    case True
    have "\<And>a. a \<in> set (concat (map (\<lambda>y. [output + y * l ..< output + y * l + n])
                                            [start_y ..< e])) \<Longrightarrow> a < output + e * l"
      using rows_in_range [OF assms] by blast
    then show ?thesis using True Suc by (fastforce simp: upt_Suc_append) 
  qed
qed

text \<open>
  Claim C5 (as amended). Let \<open>width\<close> be the smaller of the luma row stride and the
  destination row stride, and \<open>n = 4 * ceil(width / 2)\<close>. Provided \<open>n\<close> bytes fit in a
  destination row and \<open>end_y * out_linesize\<close> is below \<open>2 ^ 32\<close>, each of the three
  routines returns, and the bytes it stores to are exactly the first \<open>n\<close> bytes of each
  destination row from \<open>start_y\<close> up to \<open>end_y\<close>, each once: \<open>end_y - start_y\<close> rows of
  \<open>n\<close> bytes, none of them outside \<open>[start_y * out_linesize, end_y * out_linesize)\<close>
  (offsets from \<open>output\<close>).
\<close>

theorem uyvy_rows_written:
  assumes fits: "bytes_per_row (in_linesize ! 0) out_linesize \<le> unat out_linesize"
      and nowrap: "end_y * unat out_linesize < 2 ^ 32"
  shows "\<exists>stored.
     map_option snd (convert_nv12_to_uyvy input in_linesize start_y end_y output out_linesize
                       (m, [])) = Some stored \<and>
     map_option snd (convert_i420_to_uyvy input in_linesize start_y end_y output out_linesize
                       (m, [])) = Some stored \<and>
     map_option snd (convert_i444_to_uyvy input in_linesize start_y end_y output out_linesize
                       (m, [])) = Some stored \<and>
     stored = concat (map (\<lambda>y. [output + y * unat out_linesize ..<
                                 output + y * unat out_linesize
                                   + bytes_per_row (in_linesize ! 0) out_linesize])
                          [start_y ..< end_y]) \<and>
     length stored = (end_y - start_y) * bytes_per_row (in_linesize ! 0) out_linesize \<and>
     distinct stored \<and>
     (\<forall>a \<in> set stored. output + start_y * unat out_linesize \<le> a \<and>
                        a < output + end_y * unat out_linesize)"
proof -
  let ?n = "bytes_per_row (in_linesize ! 0) out_linesize"
  let ?rows = "concat (map (\<lambda>y. [output + y * unat out_linesize ..<
                                   output + y * unat out_linesize + ?n]) [start_y ..< end_y])"
  note w = fits_width [OF fits]
  have "map_option snd (convert_nv12_to_uyvy input in_linesize start_y end_y output
                          out_linesize (m, [])) = Some ?rows"
    using nv12_stored [OF w, of input start_y end_y "output" m "[]"]
    by (auto simp: row_bytes_exact [OF nowrap])
  moreover
  have "map_option snd (convert_i420_to_uyvy input in_linesize start_y end_y output
                          out_linesize (m, [])) = Some ?rows"
    using i420_stored [OF w, of input start_y end_y "output" m "[]"]
    by (auto simp: row_bytes_exact [OF nowrap])
  moreover
  have "map_option snd (convert_i444_to_uyvy input in_linesize start_y end_y output
                          out_linesize (m, [])) = Some ?rows"
    using i444_stored [OF w, of input start_y end_y "output" m "[]"]
    by (auto simp: row_bytes_exact [OF nowrap])
  moreover
  have "length ?rows = (end_y - start_y) * ?n"
    using length_concat_rows [of "\<lambda>y. output + y * unat out_linesize" ?n "[start_y ..< end_y]"]
    by simp
  moreover
  have "distinct ?rows"
    using fits by (rule rows_distinct)
  moreover
  have "\<forall>a \<in> set ?rows. output + start_y * unat out_linesize \<le> a \<and>
                        a < output + end_y * unat out_linesize"
    using rows_in_range [OF fits] by blast
  ultimately show ?thesis by blast
qed

theorem uyvy_rows_written_witness:
  "bytes_per_row ([2, 2, 0] ! 0) 4 \<le> unat (4 :: u32) \<and> 2 * unat (4 :: u32) < 2 ^ 32 \<and>
   map_option snd (convert_nv12_to_uyvy [100, 200, 0] [2, 2, 0] 0 2 1000 4 (blank_memory, []))
     = Some [1000, 1001, 1002, 1003, 1004, 1005, 1006, 1007] \<and>
   map_option snd (convert_i420_to_uyvy [100, 200, 0] [2, 2, 0] 0 2 1000 4 (blank_memory, []))
     = Some [1000, 1001, 1002, 1003, 1004, 1005, 1006, 1007] \<and>
   map_option snd (convert_i444_to_uyvy [100, 200, 0] [2, 2, 0] 0 2 1000 4 (blank_memory, []))
     = Some [1000, 1001, 1002, 1003, 1004, 1005, 1006, 1007]"
  using uyvy_rows_written [of "[2, 2, 0]" 4 2 "[100, 200, 0]" 0 1000 blank_memory]
  by (simp add: bytes_per_row_def min_uint32_def upt_rec)

text \<open>
  Claim C5 as stated fails where the luma stride exceeds half the destination stride: for
  one row with both strides 4, \<open>width\<close> is 4, the routine stores \<open>4 * floor(4 / 2) = 8\<close>
  bytes, and the last of them, at offset 7, is outside \<open>[0 * 4, 1 * 4)\<close>.
\<close>

theorem uyvy_rows_counterexample:
  "map_option snd (convert_nv12_to_uyvy [100, 200, 0] [4, 4, 0] 0 1 1000 4 (blank_memory, []))
     = Some [1000, 1001, 1002, 1003, 1004, 1005, 1006, 1007] \<and>
   unat (min_uint32 4 4) = 4 \<and>
   \<not> (1007 < 1000 + 1 * unat (4 :: u32))"
  by (simp add: convert_nv12_to_uyvy.simps pack_row.simps min_uint32_def mul_u32_def Let_def)

section \<open>Properties: admission\<close>

lemma push_fillers_frames:
  "video_frames (push_fillers n vf s) = video_frames s @ replicate n (vf\<lparr>p_data := 0\<rparr>)"
  by (induction n arbitrary: s) (simp_all add: replicate_app_Cons_same)

lemma push_fillers_sem:
  "video_send_sem (push_fillers n vf s) = video_send_sem s + n"
  by (induction n arbitrary: s) simp_all

text \<open>
  Claim C1. The queue is never to hold more than 60 descriptors. On the started 30/1
  output with an empty queue and no audio seen, a video frame stamped 2 seconds asks for
  60 frames of delay: the call appends 60 fillers and then the frame itself, and returns
  with 61 descriptors in the queue.
\<close>

theorem queue_exceeds_bound:
  "case ndi_output_rawvideo started_output (host_frame 2000000000) of
     Inl e \<Rightarrow> False
   | Inr s' \<Rightarrow> length (video_frames s') = 61 \<and> MAX_BUFFERING_FRAMES = 60"
  by (simp add: ndi_output_rawvideo_def started_output_fields MAX_BUFFERING_FRAMES_def
        convert_frame_def describe_frame_def bmalloc_def emit_def Let_def split_def
        correct_drift_def required_delay_frames_def bgra_env_def host_frame_def
        frame_time_of_def to_uint64_def signed_divide_int_def
        required_delay_frames_of_def audio_buffering_of_def to_int64_def to_int32_def
        push_fillers_frames)

text \<open>
  Claim C4. A raw-video call that finds 60 or more descriptors in the queue returns with
  the whole state as it was: the memory (nothing converted or copied), the allocator
  (nothing allocated), the queue, the semaphore and the trace of events.
\<close>

theorem rawvideo_full_queue:
  "MAX_BUFFERING_FRAMES \<le> length (video_frames s) \<Longrightarrow> ndi_output_rawvideo s frame = Inr s"
  by (simp add: ndi_output_rawvideo_def)

theorem rawvideo_full_queue_witness:
  "started full_output \<and> MAX_BUFFERING_FRAMES \<le> length (video_frames full_output) \<and>
   ndi_output_rawvideo full_output (host_frame 0) = Inr full_output"
  using rawvideo_full_queue [of full_output "host_frame 0"]
  by (simp add: full_output_def started_output_fields MAX_BUFFERING_FRAMES_def)

text \<open>
  Claim C10. While the started flag is false, a raw-video call and a raw-audio call both
  return the state unchanged: nothing is sent or allocated, and the queue, the semaphore
  and the last audio timestamp are as before.
\<close>

theorem not_started_no_effect:
  "\<not> started s \<Longrightarrow>
   ndi_output_rawvideo s vframe = Inr s \<and> ndi_output_rawaudio s aframe = s"
  by (simp add: ndi_output_rawvideo_def ndi_output_rawaudio_def)

theorem not_started_no_effect_witness:
  "\<not> started fresh_output \<and>
   ndi_output_rawvideo fresh_output (host_frame 0) = Inr fresh_output \<and>
   ndi_output_rawaudio fresh_output (host_audio 0) = fresh_output"
  using not_started_no_effect [of fresh_output "host_frame 0" "host_audio 0"]
  by (simp add: fresh_output_def ndi_output_create_def ndi_output_update_def)

section \<open>Properties: drift correction\<close>

lemma to_int32_small: "0 \<le> v \<Longrightarrow> v < 2 ^ 31 \<Longrightarrow> to_int32 v = v"
  by (simp add: to_int32_def)

lemma required_delay_frames_rate [simp]:
  "required_delay_frames (vf\<lparr>p_data := p\<rparr>) t a = required_delay_frames vf t a"
  "required_delay_frames (vf\<lparr>line_stride_in_bytes := l\<rparr>) t a = required_delay_frames vf t a"
  by (simp_all add: required_delay_frames_def)

lemma convert_frame_returns:
  assumes "unat (min_uint32 (linesize frame ! 0) (conv_linesize s)) < 2 ^ 32 - 1"
  shows "\<exists>m p l. convert_frame s frame vf =
           Inr (s\<lparr>mem := m\<rparr>, vf\<lparr>p_data := p, line_stride_in_bytes := l\<rparr>)"
proof -
  let ?rows = "concat (map (row_bytes (conv_buffer s) (conv_linesize s)
                              (bytes_per_row (linesize frame ! 0) (conv_linesize s)))
                           [0 ..< unat (output_height (video_info s))])"
  let ?vf = "vf\<lparr>p_data := conv_buffer s, line_stride_in_bytes := conv_linesize s\<rparr>"
  have same: "s\<lparr>mem := mem s\<rparr> = s" by simp
  consider (other) "FourCC vf \<noteq> NDIlib_FourCC_type_UYVY"
    | (nv12) "FourCC vf = NDIlib_FourCC_type_UYVY"
             "output_format (video_info s) = VIDEO_FORMAT_NV12"
    | (i420) "FourCC vf = NDIlib_FourCC_type_UYVY"
             "output_format (video_info s) = VIDEO_FORMAT_I420"
    | (i444) "FourCC vf = NDIlib_FourCC_type_UYVY"
             "output_format (video_info s) = VIDEO_FORMAT_I444"
    | (none) "FourCC vf = NDIlib_FourCC_type_UYVY"
             "output_format (video_info s) \<noteq> VIDEO_FORMAT_NV12"
             "output_format (video_info s) \<noteq> VIDEO_FORMAT_I420"
             "output_format (video_info s) \<noteq> VIDEO_FORMAT_I444"
    by blast
  then show ?thesis
  proof cases
    case other
    then have "convert_frame s frame vf =
        Inr (s\<lparr>mem := mem s\<rparr>, vf\<lparr>p_data := data frame ! 0,
                                      line_stride_in_bytes := linesize frame ! 0\<rparr>)"
      by (simp add: convert_frame_def)
    then show ?thesis by blast
  next
    case nv12
    obtain m1 where "convert_nv12_to_uyvy (data frame) (linesize frame) 0
        (unat (output_height (video_info s))) (conv_buffer s) (conv_linesize s) (mem s, [])
      = Some (m1, [] @ ?rows)"
      using nv12_stored [OF assms] by blast
    with nv12 have "convert_frame s frame vf = Inr (s\<lparr>mem := m1\<rparr>, ?vf)"
      by (simp add: convert_frame_def)
    then show ?thesis by blast
  next
    case i420
    obtain m1 where "convert_i420_to_uyvy (data frame) (linesize frame) 0
        (unat (output_height (video_info s))) (conv_buffer s) (conv_linesize s) (mem s, [])
      = Some (m1, [] @ ?rows)"
      using i420_stored [OF assms] by blast
    with i420 have "convert_frame s frame vf = Inr (s\<lparr>mem := m1\<rparr>, ?vf)"
      by (simp add: convert_frame_def)
    then show ?thesis by blast
  next
    case i444
    obtain m1 where "convert_i444_to_uyvy (data frame) (linesize frame) 0
        (unat (output_height (video_info s))) (conv_buffer s) (conv_linesize s) (mem s, [])
      = Some (m1, [] @ ?rows)"
      using i444_stored [OF assms] by blast
    with i444 have "convert_frame s frame vf = Inr (s\<lparr>mem := m1\<rparr>, ?vf)"
      by (simp add: convert_frame_def)
    then show ?thesis by blast
  next
    case none
    then have "convert_frame s frame vf = Inr (s\<lparr>mem := mem s\<rparr>, ?vf)"
      by (simp add: convert_frame_def)
    then show ?thesis by blast
  qed
qed

lemma rawaudio_fields:
  "started (ndi_output_rawaudio s frame) = started s"
  "video_frames (ndi_output_rawaudio s frame) = video_frames s"
  "video_info (ndi_output_rawaudio s frame) = video_info s"
  "conv_linesize (ndi_output_rawaudio s frame) = conv_linesize s"
  "conv_buffer (ndi_output_rawaudio s frame) = conv_buffer s"
  "video_send_sem (ndi_output_rawaudio s frame) = video_send_sem s"
  "video_send_thread (ndi_output_rawaudio s frame) = video_send_thread s"
  "frame_format (ndi_output_rawaudio s frame) = frame_format s"
  "last_audio_timestamp (ndi_output_rawaudio s frame) =
     (if started s then audio_timestamp frame else last_audio_timestamp s)"
  by (simp_all add: ndi_output_rawaudio_def Let_def split_def bmalloc_def bfree_def emit_def)

text \<open>
  Claim C6. When a frame is admitted (the output is started and fewer than 60 descriptors
  wait) and its required delay equals the number of descriptors waiting, the call returns
  with the queue extended by exactly one descriptor, the new frame with its freshly
  allocated copy, and the semaphore posted once; the only event is that allocation, so
  nothing was popped or released and no filler was inserted. (The conversion loop must
  return, which it does unless the processed width is \<open>2 ^ 32 - 1\<close>.)
\<close>

theorem drift_correction_idle:
  assumes "started s" and "length (video_frames s) < MAX_BUFFERING_FRAMES"
      and "required_delay_frames (describe_frame s frame) (timestamp frame)
             (last_audio_timestamp s) = Inr (int (length (video_frames s)))"
      and "unat (min_uint32 (linesize frame ! 0) (conv_linesize s)) < 2 ^ 32 - 1"
  shows "\<exists>s' video_frame n.
           ndi_output_rawvideo s frame = Inr s' \<and>
           video_frames s' = video_frames s @ [video_frame] \<and>
           p_data video_frame = brk s \<and>
           video_send_sem s' = video_send_sem s + 1 \<and>
           trace s' = trace s @ [Bmalloc (brk s) n] \<and>
           live s' = insert (brk s) (live s)"
proof -
  obtain m p l where cf:
    "convert_frame s frame (describe_frame s frame) =
       Inr (s\<lparr>mem := m\<rparr>, (describe_frame s frame)\<lparr>p_data := p, line_stride_in_bytes := l\<rparr>)"
    using convert_frame_returns [OF assms(4)] by blast
  have small: "to_int32 (int (length (video_frames s))) = int (length (video_frames s))"
    using assms(2) by (intro to_int32_small) (simp_all add: MAX_BUFFERING_FRAMES_def)
  show ?thesis
    using assms(1,2,3)
    by (simp add: ndi_output_rawvideo_def cf Let_def split_def bmalloc_def emit_def
          correct_drift_def small to_int32_small)
qed


theorem drift_correction_idle_witness:
  "started (ndi_output_rawaudio started_output (host_audio 5000000)) \<and>
   length (video_frames (ndi_output_rawaudio started_output (host_audio 5000000)))
     < MAX_BUFFERING_FRAMES \<and>
   (\<exists>s' video_frame.
      ndi_output_rawvideo (ndi_output_rawaudio started_output (host_audio 5000000))
        (host_frame 5000000) = Inr s' \<and>
      video_frames s' = [video_frame] \<and> video_send_sem s' = 1)"
  using drift_correction_idle
          [of "ndi_output_rawaudio started_output (host_audio 5000000)" "host_frame 5000000"]
  by (simp add: rawaudio_fields started_output_fields started_output_env
        MAX_BUFFERING_FRAMES_def required_delay_frames_def describe_frame_def bgra_env_def
        host_frame_def host_audio_def frame_time_of_def to_uint64_def signed_divide_int_def
        required_delay_frames_of_def audio_buffering_of_def to_int64_def to_int32_def
        min_uint32_def) blast

section \<open>Properties: delivery thread\<close>

text \<open>
  Claim C7. A pass of the delivery loop that wakes with the stop event unsignalled and
  dequeues the frame \<open>f\<close>: the frame leaves the queue and one unit of the semaphore is
  consumed; if \<open>f\<close> has pixel data it is sent to the sink once and its buffer is released
  once, otherwise nothing is sent or released; in both cases the pass ends by sleeping to
  the deadline \<open>now + frame_duration\<close>.
\<close>

theorem delivery_pass:
  assumes "0 < video_send_sem s" and "\<not> video_send_stop_event s"
      and "video_frames s = f # rest"
      and "frame_time_of (frame_rate_N f) (frame_rate_D f) = Inr frame_duration"
  shows "\<exists>s'. videosend_iteration s = Inr (True, s') \<and>
           video_frames s' = rest \<and>
           video_send_sem s' = video_send_sem s - 1 \<and>
           trace s' = trace s @
             (if p_data f \<noteq> 0 then [Send_video f, Bfree (p_data f)] else []) @
             [Sleepto (os_gettime_ns s + word_of_int frame_duration)] \<and>
           live s' = (if p_data f \<noteq> 0 then live s - {p_data f} else live s)"
  using assms
  by (simp add: videosend_iteration_def Let_def bfree_def emit_def os_sleepto_ns_def
        os_gettime_ns_def)

theorem delivery_pass_witness:
  "0 < video_send_sem queued_output \<and> \<not> video_send_stop_event queued_output \<and>
   frame_time_of 30 1 = Inr 33333333 \<and>
   (\<exists>s'. videosend_iteration queued_output = Inr (True, s') \<and> video_frames s' = [] \<and>
      video_send_sem s' = 0 \<and>
      trace s' = trace queued_output @
         [Send_video (hd (video_frames queued_output)), Bfree 1000, Sleepto 33333333] \<and>
      live s' = {})"
  using delivery_pass [of queued_output "hd (video_frames queued_output)" "[]" 33333333]
  by (simp add: queued_output_def started_output_fields started_output_env describe_frame_def bgra_env_def
       frame_time_of_def to_uint64_def signed_divide_int_def os_gettime_ns_def)


section \<open>Properties: start\<close>

lemma select_format_unchanged:
  "started (select_format s) = started s"
  "video_send_thread (select_format s) = video_send_thread s"
  "video_frames (select_format s) = video_frames s"
  "video_send_sem (select_format s) = video_send_sem s"
  "video_send_stop_event (select_format s) = video_send_stop_event s"
  "last_audio_timestamp (select_format s) = last_audio_timestamp s"
  "ndi_name (select_format s) = ndi_name s"
  "video_info (select_format s) = video_info s"
  "audio_info (select_format s) = audio_info s"
  by (simp_all add: select_format_def new_array_def emit_def Let_def split: video_format.splits)

lemma select_format_trace:
  "trace (select_format s) =
     trace s @
     (if output_format (video_info s) \<in> {VIDEO_FORMAT_NV12, VIDEO_FORMAT_I420, VIDEO_FORMAT_I444}
      then [New_array (brk s)
              (unat (output_height (video_info s) * (output_width (video_info s) * 2) * 2))]
      else [])"
  by (simp add: select_format_def new_array_def emit_def Let_def split: video_format.splits)

lemma select_format_planar:
  "output_format (video_info s) \<in> {VIDEO_FORMAT_NV12, VIDEO_FORMAT_I420, VIDEO_FORMAT_I444} \<Longrightarrow>
   frame_format (select_format s) = NDIlib_FourCC_type_UYVY \<and>
   conv_linesize (select_format s) = output_width (video_info s) * 2 \<and>
   conv_buffer (select_format s) = brk s \<and> brk s \<in> live (select_format s)"
  by (auto simp add: select_format_def new_array_def emit_def Let_def split: video_format.splits)

lemma delete_unchanged:
  "brk (delete p s) = brk s"
  "video_info (delete p s) = video_info s"
  "trace (delete p s) = trace s @ (if p = 0 then [] else [Delete p])"
  by (simp_all add: delete_def emit_def)

lemma start_no_sender_state:
  assumes "created_sender env = 0"
  shows "ndi_output_start env s =
     (started s,
      (emit (Send_create (ndi_name s))
         (select_format
            ((delete (conv_buffer s) (emit (Send_destroy (ndi_sender s)) s))
               \<lparr>video_info := host_video_info env, audio_info := host_audio_info env\<rparr>)))
       \<lparr>ndi_sender := 0\<rparr>)"
  using assms
  by (simp add: ndi_output_start_def Let_def emit_def select_format_unchanged delete_def)

text \<open>
  Claim C9 (as amended). When \<^verbatim>\<open>ndi_output_start\<close> is called with the started flag false
  and the sender cannot be created, it returns false, the flag stays false, the sender
  handle is null, no thread is created and capture is not begun, and the queue, the
  semaphore, the stop event and the last audio timestamp are untouched. What was set up
  before the creation attempt is kept: the negotiated video and audio information and,
  for the three planar formats, the UYVY frame format, \<open>conv_linesize\<close> and the newly
  allocated conversion buffer.
\<close>

theorem start_without_sender:
  assumes "created_sender env = 0" and "\<not> started s"
  shows "fst (ndi_output_start env s) = False \<and>
         (let s' = snd (ndi_output_start env s) in
            \<not> started s' \<and> ndi_sender s' = 0 \<and>
            video_send_thread s' = video_send_thread s \<and>
            Pthread_create \<notin> set (events_since s s') \<and>
            Begin_data_capture \<notin> set (events_since s s') \<and>
            video_frames s' = video_frames s \<and>
            video_send_sem s' = video_send_sem s \<and>
            video_send_stop_event s' = video_send_stop_event s \<and>
            last_audio_timestamp s' = last_audio_timestamp s \<and>
            video_info s' = host_video_info env \<and> audio_info s' = host_audio_info env \<and>
            (output_format (host_video_info env)
               \<in> {VIDEO_FORMAT_NV12, VIDEO_FORMAT_I420, VIDEO_FORMAT_I444} \<longrightarrow>
             frame_format s' = NDIlib_FourCC_type_UYVY \<and>
             conv_linesize s' = output_width (host_video_info env) * 2 \<and>
             conv_buffer s' = brk s \<and> conv_buffer s' \<in> live s'))"
proof -
  let ?s1 = "(delete (conv_buffer s) (emit (Send_destroy (ndi_sender s)) s))
               \<lparr>video_info := host_video_info env, audio_info := host_audio_info env\<rparr>"
  have brk1: "brk ?s1 = brk s" and vi1: "video_info ?s1 = host_video_info env"
    by (simp_all add: delete_def emit_def)
  have tr: "trace ?s1 = trace s @ Send_destroy (ndi_sender s) #
              (if conv_buffer s = 0 then [] else [Delete (conv_buffer s)])"
    by (simp add: delete_def emit_def)
  have planar: "output_format (host_video_info env)
               \<in> {VIDEO_FORMAT_NV12, VIDEO_FORMAT_I420, VIDEO_FORMAT_I444} \<Longrightarrow>
     frame_format (select_format ?s1) = NDIlib_FourCC_type_UYVY \<and>
     conv_linesize (select_format ?s1) = output_width (host_video_info env) * 2 \<and>
     conv_buffer (select_format ?s1) = brk s \<and> brk s \<in> live (select_format ?s1)"
    using select_format_planar [of ?s1] by (simp only: vi1 brk1) 
  have unch: "\<not> started (select_format ?s1)"
     "video_send_thread (select_format ?s1) = video_send_thread s"
     "video_frames (select_format ?s1) = video_frames s"
     "video_send_sem (select_format ?s1) = video_send_sem s"
     "video_send_stop_event (select_format ?s1) = video_send_stop_event s"
     "last_audio_timestamp (select_format ?s1) = last_audio_timestamp s"
     "video_info (select_format ?s1) = host_video_info env"
     "audio_info (select_format ?s1) = host_audio_info env"
    using assms(2) by (simp_all add: select_format_unchanged delete_def emit_def)
  have ev: "Pthread_create \<notin> set (drop (length (trace s)) (trace (select_format ?s1) @ [Send_create (ndi_name s)]))"
     "Begin_data_capture \<notin> set (drop (length (trace s)) (trace (select_format ?s1) @ [Send_create (ndi_name s)]))"
    by (simp_all add: select_format_trace tr)
  show ?thesis
    using assms(2) planar unch ev
    by (simp add: start_no_sender_state [OF assms(1)] Let_def emit_def events_since_def)
qed

theorem start_without_sender_witness:
  "created_sender nv12_env_no_sender = 0 \<and> \<not> started fresh_output \<and>
   fst (ndi_output_start nv12_env_no_sender fresh_output) = False \<and>
   video_send_thread (snd (ndi_output_start nv12_env_no_sender fresh_output)) = Not_created \<and>
   frame_format (snd (ndi_output_start nv12_env_no_sender fresh_output)) = NDIlib_FourCC_type_UYVY \<and>
   conv_buffer (snd (ndi_output_start nv12_env_no_sender fresh_output)) = 1000"
  using start_without_sender [of nv12_env_no_sender fresh_output]
  by (simp add: nv12_env_no_sender_def fresh_output_def ndi_output_create_def
        ndi_output_update_def Let_def)

text \<open>
  Claim C9 as stated says that a failed start leaves nothing partially initialised. A new
  instance negotiating NV12 whose sender cannot be created comes back from the call with
  the frame format selected and a conversion buffer allocated, and no sender.
\<close>

theorem start_failure_counterexample:
  "created_sender nv12_env_no_sender = 0 \<and>
   fst (ndi_output_start nv12_env_no_sender fresh_output) = False \<and>
   frame_format fresh_output = FourCC_zero \<and>
   frame_format (snd (ndi_output_start nv12_env_no_sender fresh_output)) = NDIlib_FourCC_type_UYVY \<and>
   conv_buffer fresh_output = 0 \<and>
   conv_buffer (snd (ndi_output_start nv12_env_no_sender fresh_output)) = 1000 \<and>
   1000 \<in> live (snd (ndi_output_start nv12_env_no_sender fresh_output)) \<and>
   ndi_sender (snd (ndi_output_start nv12_env_no_sender fresh_output)) = 0"
  by (simp add: nv12_env_no_sender_def fresh_output_def ndi_output_create_def
        ndi_output_update_def ndi_output_start_def select_format_def new_array_def
        delete_def emit_def Let_def)

section \<open>Properties: stop\<close>

lemma flush_frames_fields:
  "video_frames (flush_frames s) = [] \<and>
   trace (flush_frames s) = trace s @ map Bfree (queued_buffers s) \<and>
   live (flush_frames s) = live s - set (queued_buffers s) \<and>
   started (flush_frames s) = started s \<and>
   ndi_sender (flush_frames s) = ndi_sender s \<and>
   conv_buffer (flush_frames s) = conv_buffer s \<and>
   video_send_thread (flush_frames s) = video_send_thread s"
proof (induction s rule: flush_frames.induct)
  case (1 s)
  show ?case
  proof (cases "video_frames s")
    case Nil
    then show ?thesis
      by (subst (1 2 3 4 5 6 7) flush_frames.simps) (simp add: queued_buffers_def)
  next
    case (Cons f rest)
    from "1.IH" [OF Cons] Cons show ?thesis
      by (subst (1 2 3 4 5 6 7) flush_frames.simps)
         (auto simp add: queued_buffers_def bfree_def emit_def)
  qed
qed

lemmas flush_frames_simps =
  flush_frames_fields [THEN conjunct1]
  flush_frames_fields [THEN conjunct2, THEN conjunct1]
  flush_frames_fields [THEN conjunct2, THEN conjunct2, THEN conjunct1]
  flush_frames_fields [THEN conjunct2, THEN conjunct2, THEN conjunct2, THEN conjunct1]
  flush_frames_fields [THEN conjunct2, THEN conjunct2, THEN conjunct2, THEN conjunct2,
                       THEN conjunct1]
  flush_frames_fields [THEN conjunct2, THEN conjunct2, THEN conjunct2, THEN conjunct2,
                       THEN conjunct2, THEN conjunct1]
  flush_frames_fields [THEN conjunct2, THEN conjunct2, THEN conjunct2, THEN conjunct2,
                       THEN conjunct2, THEN conjunct2]

lemma videosend_loop_stop:
  assumes "0 < video_send_sem s" and "video_send_stop_event s"
  shows "videosend_loop s =
           Inr (s\<lparr>video_send_sem := video_send_sem s - 1, video_send_stop_event := False\<rparr>)"
  using assms
  by (subst videosend_loop.simps) (simp add: videosend_iteration_def Let_def)

lemma pthread_join_stop:
  assumes "video_send_thread s = Running" and "0 < video_send_sem s"
      and "video_send_stop_event s"
  shows "pthread_join s =
           Inr ((flush_frames (s\<lparr>video_send_sem := video_send_sem s - 1,
                                   video_send_stop_event := False\<rparr>))
                  \<lparr>video_send_thread := Exited\<rparr>)"
  using assms
  by (simp add: pthread_join_def ndi_videosend_thread_def videosend_loop_stop)

lemma stop_fields:
  assumes "video_send_thread s = Running"
  shows "\<exists>s'. ndi_output_stop s ts = Inr s' \<and>
           video_frames s' = [] \<and> video_send_thread s' = Exited \<and> \<not> started s' \<and>
           trace s' = trace s @ End_data_capture # map Bfree (queued_buffers s) @
                        Send_destroy (ndi_sender s) #
                        (if conv_buffer s = 0 then [] else [Delete (conv_buffer s)]) \<and>
           live s' = live s - set (queued_buffers s) - ({conv_buffer s} - {0})"
  using assms
  by (simp add: ndi_output_stop_def Let_def emit_def delete_def pthread_join_stop
        flush_frames_simps queued_buffers_def)


lemma queue_owned_same:
  assumes "video_frames s' = video_frames s" and "live s' = live s" and "brk s' = brk s"
  shows "queue_owned others s' = queue_owned others s"
  using assms by (simp add: queue_owned_def queued_buffers_def)

lemma queue_owned_pop:
  assumes own: "queue_owned others s" and q: "video_frames s = f # rest"
      and s': "video_frames s' = rest" "live s' = live s" "brk s' = brk s"
  shows "queue_owned others (bfree (p_data f) s')"
proof (cases "p_data f = 0")
  case True
  with own q s' show ?thesis
    by (simp add: bfree_def queue_owned_def queued_buffers_def)
next
  case False
  with q have qb: "queued_buffers s = p_data f # queued_buffers s'"
    by (simp add: queued_buffers_def s')
  have qb': "queued_buffers (bfree (p_data f) s') = queued_buffers s'"
    by (simp add: bfree_def emit_def queued_buffers_def)
  from own have d: "distinct (queued_buffers s)"
    and l: "live s = others \<union> set (queued_buffers s)"
    and i: "others \<inter> set (queued_buffers s) = {}"
    and b: "\<forall>p \<in> live s. p < brk s" "0 < brk s"
    by (simp_all add: queue_owned_def)
  from d i have "p_data f \<notin> set (queued_buffers s')" "p_data f \<notin> others"
    by (auto simp: qb)
  then have "live s - {p_data f} = others \<union> set (queued_buffers s')"
    using l by (auto simp: qb)
  moreover have "others \<inter> set (queued_buffers s') = {}" using i by (auto simp: qb)
  moreover have "distinct (queued_buffers s')" using d by (simp add: qb)
  moreover have "live (bfree (p_data f) s') = live s - {p_data f}"
    and "brk (bfree (p_data f) s') = brk s"
    using False by (simp_all add: bfree_def emit_def s')
  ultimately show ?thesis
    using b unfolding queue_owned_def qb' by auto
qed

lemma pop_frames_owned:
  "queue_owned others s \<Longrightarrow> pop_frames n s = Inr s' \<Longrightarrow>
   queue_owned others s' \<and> brk s' = brk s \<and> video_send_thread s' = video_send_thread s \<and>
   video_send_stop_event s' = video_send_stop_event s"
proof (induction n arbitrary: s)
  case 0
  then show ?case by simp
next
  case (Suc n)
  from Suc.prems(2) obtain f rest where q: "video_frames s = f # rest"
    by (cases "video_frames s") simp_all
  let ?s1 = "s\<lparr>video_frames := rest, video_send_sem := video_send_sem s - 1\<rparr>"
  from Suc.prems(2) q have rec: "pop_frames n (bfree (p_data f) ?s1) = Inr s'"
    by (simp split: if_splits)
  have "queue_owned others (bfree (p_data f) ?s1)"
    using Suc.prems(1) q by (rule queue_owned_pop) simp_all
  from Suc.IH [OF this rec] show ?case
    by (simp add: bfree_def emit_def)
qed

lemma push_fillers_fields:
  "live (push_fillers n vf s) = live s"
  "brk (push_fillers n vf s) = brk s"
  "video_send_thread (push_fillers n vf s) = video_send_thread s"
  "video_send_stop_event (push_fillers n vf s) = video_send_stop_event s"
  "queued_buffers (push_fillers n vf s) = queued_buffers s"
  by (induction n arbitrary: s) (simp_all add: queued_buffers_def)

lemma push_fillers_owned:
  "queue_owned others (push_fillers n vf s) = queue_owned others s"
  by (simp add: queue_owned_def push_fillers_fields)

lemma convert_frame_Inr:
  assumes "convert_frame s frame vf = Inr (s1, vf1)"
  shows "video_frames s1 = video_frames s \<and> live s1 = live s \<and> brk s1 = brk s \<and>
         video_send_thread s1 = video_send_thread s \<and>
         video_send_stop_event s1 = video_send_stop_event s"
  using assms
  by (auto simp add: convert_frame_def Let_def split: if_splits option.splits)


lemma correct_drift_owned:
  assumes "queue_owned others s" and "correct_drift add cur vf s = Inr s'"
  shows "queue_owned others s' \<and> brk s' = brk s \<and>
         video_send_thread s' = video_send_thread s \<and>
         video_send_stop_event s' = video_send_stop_event s"
proof -
  consider (neg) "add < 0" | (pos) "0 < add" | (zero) "add = 0" by linarith
  then show ?thesis
  proof cases
    case neg
    with assms(2) show ?thesis
      using pop_frames_owned [OF assms(1)] by (simp add: correct_drift_def Let_def)
  next
    case pos
    with assms show ?thesis
      by (auto simp add: correct_drift_def push_fillers_owned push_fillers_fields)
  next
    case zero
    with assms show ?thesis by (simp add: correct_drift_def)
  qed
qed

lemma bmalloc_owned:
  assumes "queue_owned others s" and "video_frames s1 = video_frames s"
      and "live s1 = live s" and "brk s1 = brk s"
  shows "queue_owned (insert (brk s) others) (snd (bmalloc n s1)) \<and>
         fst (bmalloc n s1) = brk s \<and> brk s \<notin> others \<and> brk s \<noteq> 0 \<and>
         brk s \<notin> live s"
proof -
  from assms(1) have d: "distinct (queued_buffers s)"
    and l: "live s = others \<union> set (queued_buffers s)"
    and i: "others \<inter> set (queued_buffers s) = {}"
    and b: "\<forall>p \<in> live s. p < brk s" "0 < brk s"
    by (simp_all add: queue_owned_def)
  have fresh: "brk s \<notin> live s" using b(1) by auto
  have q: "queued_buffers (snd (bmalloc n s1)) = queued_buffers s"
    by (simp add: bmalloc_def emit_def queued_buffers_def assms(2))
  have lv: "live (snd (bmalloc n s1)) = insert (brk s) (live s)"
    and bk: "brk (snd (bmalloc n s1)) = brk s + max n 1"
    by (simp_all add: bmalloc_def emit_def assms(3,4))
  have "\<forall>p \<in> insert (brk s) (live s). p < brk s + max n 1"
    using b(1) by auto
  then have "queue_owned (insert (brk s) others) (snd (bmalloc n s1))"
    unfolding queue_owned_def q lv bk using d l i fresh b(2) by auto
  then show ?thesis using fresh l b(2) by (auto simp add: bmalloc_def assms(4))
qed

lemma rawvideo_owned:
  assumes own: "queue_owned others s" and r: "ndi_output_rawvideo s frame = Inr s'"
  shows "queue_owned others s' \<and> video_send_thread s' = video_send_thread s \<and>
         video_send_stop_event s' = video_send_stop_event s"
proof (cases "started s \<and> length (video_frames s) < MAX_BUFFERING_FRAMES")
  case False
  with r own show ?thesis by (auto simp add: ndi_output_rawvideo_def split: if_splits)
next
  case True
  from r True obtain s1 vf1 where
    cf: "convert_frame s frame (describe_frame s frame) = Inr (s1, vf1)"
    by (cases "convert_frame s frame (describe_frame s frame)")
       (auto simp add: ndi_output_rawvideo_def)
  note same = convert_frame_Inr [OF cf]
  define n where "n = nat (to_uint64 (to_int32 (sint (line_stride_in_bytes vf1) * sint (yres vf1))))"
  define s2 where "s2 = (snd (bmalloc n s1))\<lparr>mem := memcpy (brk s) (p_data vf1) n
                                                     (mem (snd (bmalloc n s1)))\<rparr>"
  define vf2 where "vf2 = vf1\<lparr>p_data := brk s\<rparr>"
  have bm: "queue_owned (insert (brk s) others) (snd (bmalloc n s1))"
    and p: "fst (bmalloc n s1) = brk s" "brk s \<notin> others" "brk s \<noteq> 0"
    using bmalloc_owned [OF own, of s1 n] same by simp_all
  have "queue_owned (insert (brk s) others) s2 =
        queue_owned (insert (brk s) others) (snd (bmalloc n s1))"
    by (rule queue_owned_same) (simp_all add: s2_def)
  with bm have own2: "queue_owned (insert (brk s) others) s2" by simp
  have th2: "video_send_thread s2 = video_send_thread s"
    "video_send_stop_event s2 = video_send_stop_event s"
    using same by (simp_all add: s2_def bmalloc_def emit_def)
  from r True cf p(1) obtain add s3 where
    cd: "correct_drift add (length (video_frames s2)) vf2 s2 = Inr s3"
    and s': "s' = s3\<lparr>video_frames := video_frames s3 @ [vf2],
                      video_send_sem := video_send_sem s3 + 1\<rparr>"
    by (auto simp add: ndi_output_rawvideo_def Let_def split_def n_def s2_def vf2_def
             split: sum.splits)
  from correct_drift_owned [OF own2 cd]
  have own3: "queue_owned (insert (brk s) others) s3"
    and th3: "video_send_thread s3 = video_send_thread s2"
             "video_send_stop_event s3 = video_send_stop_event s2" by simp_all
  have q': "queued_buffers s' = queued_buffers s3 @ [brk s]"
    using p(3) by (simp add: s' queued_buffers_def vf2_def)
  from own3 have d: "distinct (queued_buffers s3)"
    and l: "live s3 = insert (brk s) others \<union> set (queued_buffers s3)"
    and i: "insert (brk s) others \<inter> set (queued_buffers s3) = {}"
    and b: "\<forall>p \<in> live s3. p < brk s3" "0 < brk s3"
    by (simp_all add: queue_owned_def)
  have "queue_owned others s'"
    unfolding queue_owned_def q'
    using d l i b p(2) by (auto simp add: s')
  then show ?thesis using th2 th3 by (simp add: s')
qed


lemma rawaudio_owned:
  assumes own: "queue_owned others s"
  shows "queue_owned others (ndi_output_rawaudio s frame) \<and>
         video_send_thread (ndi_output_rawaudio s frame) = video_send_thread s \<and>
         video_send_stop_event (ndi_output_rawaudio s frame) = video_send_stop_event s"
proof (cases "started s")
  case False
  with own show ?thesis by (simp add: ndi_output_rawaudio_def)
next
  case True
  from own have b: "\<forall>p \<in> live s. p < brk s" "0 < brk s"
    by (simp_all add: queue_owned_def)
  then have fresh: "brk s \<notin> live s" by auto
  let ?s' = "ndi_output_rawaudio s frame"
  have q: "queued_buffers ?s' = queued_buffers s"
    using True by (simp add: ndi_output_rawaudio_def Let_def split_def bmalloc_def bfree_def
                     emit_def queued_buffers_def)
  have lv: "live ?s' = live s"
    using True b(2) fresh
    by (simp add: ndi_output_rawaudio_def Let_def split_def bmalloc_def bfree_def emit_def)
  have bk: "brk s \<le> brk ?s'"
    using True
    by (simp add: ndi_output_rawaudio_def Let_def split_def bmalloc_def bfree_def emit_def)
  have th: "video_send_thread ?s' = video_send_thread s"
    "video_send_stop_event ?s' = video_send_stop_event s"
    using True
    by (simp_all add: ndi_output_rawaudio_def Let_def split_def bmalloc_def bfree_def
          emit_def)
  have "queue_owned others ?s'"
    using own bk unfolding queue_owned_def q lv by fastforce
  with th show ?thesis by simp
qed

lemma iteration_owned:
  assumes own: "queue_owned others s" and it: "videosend_iteration s = Inr (again, s')"
      and False: "\<not> video_send_stop_event s"
  shows "queue_owned others s' \<and> video_send_thread s' = video_send_thread s \<and>
         \<not> video_send_stop_event s' \<and> again"
proof -
  from it have sem: "video_send_sem s \<noteq> 0"
    by (cases "video_send_sem s = 0") (simp_all add: videosend_iteration_def)
  from it sem False obtain f rest where q: "video_frames s = f # rest"
    by (cases "video_frames s") (simp_all add: videosend_iteration_def Let_def)
  from it sem False q obtain d where
    d: "frame_time_of (frame_rate_N f) (frame_rate_D f) = Inr d"
    by (cases "frame_time_of (frame_rate_N f) (frame_rate_D f)")
       (simp_all add: videosend_iteration_def Let_def)
  let ?s1 = "s\<lparr>video_send_sem := video_send_sem s - 1, video_frames := rest\<rparr>"
  let ?s2 = "if p_data f \<noteq> 0 then bfree (p_data f) (emit (Send_video f) ?s1) else ?s1"
  have s': "s' = os_sleepto_ns (os_gettime_ns ?s1 + word_of_int d) ?s2" and again: again
    using it sem False q d by (auto simp add: videosend_iteration_def Let_def)
  have "queue_owned others (bfree (p_data f) (emit (Send_video f) ?s1))"
    using own q by (rule queue_owned_pop) (simp_all add: emit_def)
  moreover have "p_data f = 0 \<Longrightarrow> bfree (p_data f) (emit (Send_video f) ?s1) =
                                   emit (Send_video f) ?s1"
    by (simp add: bfree_def)
  moreover have "queue_owned others (emit (Send_video f) ?s1) = queue_owned others ?s1"
    by (rule queue_owned_same) (simp_all add: emit_def)
  ultimately have "queue_owned others ?s2" by auto
  moreover have "queue_owned others s' = queue_owned others ?s2"
    unfolding s' by (rule queue_owned_same) (simp_all add: os_sleepto_ns_def emit_def)
  moreover have "video_send_thread s' = video_send_thread s"
    and "video_send_stop_event s' = video_send_stop_event s"
    unfolding s' by (simp_all add: os_sleepto_ns_def emit_def bfree_def)
  ultimately show ?thesis using False again by simp
qed

lemma do_call_owned:
  assumes "queue_owned others s" and "\<not> video_send_stop_event s" and "do_call c s = Inr s'"
  shows "queue_owned others s' \<and> video_send_thread s' = video_send_thread s \<and>
         \<not> video_send_stop_event s'"
proof (cases c)
  case (Raw_video frame)
  with assms show ?thesis using rawvideo_owned by simp
next
  case (Raw_audio frame)
  with assms show ?thesis using rawaudio_owned by auto
next
  case Thread_pass
  with assms(3) obtain again s1 where it: "videosend_iteration s = Inr (again, s1)"
    and s': "s' = (if again then s1 else flush_frames s1)"
    by (cases "videosend_iteration s") (auto split: if_splits)
  from iteration_owned [OF assms(1) it assms(2)] s' show ?thesis by simp
next
  case (Time_passes dt)
  with assms show ?thesis by (auto simp add: queue_owned_def queued_buffers_def)
qed

lemma run_owned:
  "queue_owned others s \<Longrightarrow> \<not> video_send_stop_event s \<Longrightarrow> run calls s = Inr s' \<Longrightarrow>
   queue_owned others s' \<and> video_send_thread s' = video_send_thread s \<and>
   \<not> video_send_stop_event s'"
proof (induction calls arbitrary: s)
  case Nil
  then show ?case by simp
next
  case (Cons c calls)
  from Cons.prems(3) obtain s1 where c: "do_call c s = Inr s1" and r: "run calls s1 = Inr s'"
    by (cases "do_call c s") simp_all
  from do_call_owned [OF Cons.prems(1,2) c] Cons.IH [OF _ _ r] show ?case by simp
qed

text \<open>
  Claim C8. Take a state in which the delivery thread runs, the stop event is not
  signalled and the queue owns its pixel buffers (such as the state after a successful
  start, whose queue is empty), and any
  sequence of raw-video calls (with their drops and filler insertions), raw-audio calls
  and passes of the delivery thread that follows. Then \<^verbatim>\<open>ndi_output_stop\<close> returns; the
  queue is empty and the thread has exited; the events of the call are the end of
  capture, one release for each pixel buffer the queue referred to (and nothing for the
  fillers), the destruction of the sender and the release of the conversion buffer, so
  none of the drained frames is sent; the released buffers were pairwise different and
  live; and afterwards no block allocated for a frame is live.
\<close>

theorem stop_drains_queue:
  assumes "queue_owned others s0" and "video_send_thread s0 = Running"
      and "\<not> video_send_stop_event s0" and "run calls s0 = Inr s"
  shows "\<exists>s'. ndi_output_stop s ts = Inr s' \<and>
           video_frames s' = [] \<and> video_send_thread s' = Exited \<and> \<not> started s' \<and>
           events_since s s' =
             End_data_capture # map Bfree (queued_buffers s) @
             Send_destroy (ndi_sender s) #
             (if conv_buffer s = 0 then [] else [Delete (conv_buffer s)]) \<and>
           distinct (queued_buffers s) \<and> set (queued_buffers s) \<subseteq> live s \<and>
           live s' = others - ({conv_buffer s} - {0})"
proof -
  from run_owned [OF assms(1,3,4)] assms(2)
  have own: "queue_owned others s" and th: "video_send_thread s = Running" by simp_all
  from stop_fields [OF th, of ts] obtain s' where
    "ndi_output_stop s ts = Inr s'" "video_frames s' = []" "video_send_thread s' = Exited"
    "\<not> started s'"
    "trace s' = trace s @ End_data_capture # map Bfree (queued_buffers s) @
                        Send_destroy (ndi_sender s) #
                        (if conv_buffer s = 0 then [] else [Delete (conv_buffer s)])"
    "live s' = live s - set (queued_buffers s) - ({conv_buffer s} - {0})"
    by blast
  moreover from own have "distinct (queued_buffers s)"
    "live s = others \<union> set (queued_buffers s)" "others \<inter> set (queued_buffers s) = {}"
    by (simp_all add: queue_owned_def)
  ultimately show ?thesis
    by (intro exI [of _ s']) (auto simp add: events_since_def)
qed


lemma push_fillers_numeral:
  "push_fillers (numeral k) video_frame s =
     push_fillers (pred_numeral k) video_frame
       (s\<lparr>video_frames := video_frames s @ [video_frame\<lparr>p_data := 0\<rparr>],
          video_send_sem := video_send_sem s + 1\<rparr>)"
  by (simp add: numeral_eq_Suc)

lemma pop_frames_numeral:
  "pop_frames (numeral k) s = 
     (case video_frames s of
        [] \<Rightarrow> Inl Pop_empty
      | popped_frame # rest \<Rightarrow>
          if video_send_sem s = 0 then Inl Sem_blocked
          else pop_frames (pred_numeral k)
                 (bfree (p_data popped_frame)
                    (s\<lparr>video_frames := rest, video_send_sem := video_send_sem s - 1\<rparr>)))"
  by (simp add: numeral_eq_Suc)

lemma example_run:
  "\<exists>s. run [Raw_video (host_frame 100000000), Thread_pass,
              Raw_audio (host_audio 100000000), Raw_video (host_frame 100000000)]
             started_output = Inr s"
  by (simp add: ndi_output_rawvideo_def ndi_output_rawaudio_def videosend_iteration_def
        started_output_fields started_output_env MAX_BUFFERING_FRAMES_def
        convert_frame_def describe_frame_def bmalloc_def bfree_def emit_def Let_def split_def
        correct_drift_def required_delay_frames_def bgra_env_def host_frame_def host_audio_def
        frame_time_of_def to_uint64_def signed_divide_int_def
        required_delay_frames_of_def audio_buffering_of_def to_int64_def to_int32_def
        os_sleepto_ns_def os_gettime_ns_def min_int_def
        push_fillers_numeral pop_frames_numeral)

theorem stop_drains_queue_witness:
  "queue_owned {} started_output \<and> video_send_thread started_output = Running \<and>
   \<not> video_send_stop_event started_output \<and>
   (\<exists>s. run [Raw_video (host_frame 100000000), Thread_pass,
               Raw_audio (host_audio 100000000), Raw_video (host_frame 100000000)]
              started_output = Inr s \<and>
        (\<exists>s'. ndi_output_stop s 0 = Inr s' \<and> video_frames s' = [] \<and>
              video_send_thread s' = Exited \<and> live s' = {}))"
proof -
  have own: "queue_owned {} started_output"
    by (simp add: queue_owned_def queued_buffers_def started_output_fields started_output_env)
  have th: "video_send_thread started_output = Running"
    by (simp add: started_output_fields)
  obtain s where r: "run [Raw_video (host_frame 100000000), Thread_pass,
               Raw_audio (host_audio 100000000), Raw_video (host_frame 100000000)]
              started_output = Inr s"
    using example_run by blast
  have ev: "\<not> video_send_stop_event started_output"
    by (simp add: started_output_env)
  from stop_drains_queue [OF own th ev r, of 0] own th ev r show ?thesis
    by auto
qed

section \<open>Properties: every queued frame can be paced\<close>

text \<open>
  \<^verbatim>\<open>ndi_output_rawvideo\<close> divides by the frame rate of the descriptor before it enqueues
  it or a filler copied from it, so the same division in the delivery thread is defined
  for every descriptor the queue receives.
\<close>

lemma pop_frames_subset:
  "pop_frames n s = Inr s' \<Longrightarrow> set (video_frames s') \<subseteq> set (video_frames s)"
proof (induction n arbitrary: s)
  case 0
  then show ?case by simp
next
  case (Suc n)
  from Suc.prems obtain f rest where q: "video_frames s = f # rest"
    by (cases "video_frames s") simp_all
  let ?s1 = "bfree (p_data f)
               (s\<lparr>video_frames := rest, video_send_sem := video_send_sem s - 1\<rparr>)"
  from Suc.prems q have "pop_frames n ?s1 = Inr s'"
    by (simp split: if_splits)
  from Suc.IH [OF this] have "set (video_frames s') \<subseteq> set rest"
    by (simp add: bfree_def emit_def split: if_splits)
  then show ?case using q by auto
qed

lemma correct_drift_frames:
  assumes "correct_drift add cur vf s = Inr s'"
  shows "set (video_frames s') \<subseteq> insert (vf\<lparr>p_data := 0\<rparr>) (set (video_frames s))"
proof -
  consider (neg) "add < 0" | (pos) "0 < add" | (zero) "add = 0" by linarith
  then show ?thesis
  proof cases
    case neg
    with assms show ?thesis
      using pop_frames_subset by (fastforce simp add: correct_drift_def Let_def)
  next
    case pos
    with assms show ?thesis
      by (auto simp add: correct_drift_def push_fillers_frames)
  next
    case zero
    with assms show ?thesis by (auto simp add: correct_drift_def)
  qed
qed

lemma required_delay_frames_paced:
  "required_delay_frames vf t a = Inr r \<Longrightarrow>
   \<exists>d. frame_time_of (frame_rate_N vf) (frame_rate_D vf) = Inr d"
  by (cases "frame_time_of (frame_rate_N vf) (frame_rate_D vf)")
     (simp_all add: required_delay_frames_def)

lemma rawvideo_queue_paced:
  assumes inv: "\<forall>f \<in> set (video_frames s).
                  \<exists>d. frame_time_of (frame_rate_N f) (frame_rate_D f) = Inr d"
      and r: "ndi_output_rawvideo s frame = Inr s'"
  shows "\<forall>f \<in> set (video_frames s').
           \<exists>d. frame_time_of (frame_rate_N f) (frame_rate_D f) = Inr d"
proof (cases "started s \<and> length (video_frames s) < MAX_BUFFERING_FRAMES")
  case False
  with r inv show ?thesis by (auto simp add: ndi_output_rawvideo_def split: if_splits)
next
  case True
  from r True obtain s1 vf1 where
    cf: "convert_frame s frame (describe_frame s frame) = Inr (s1, vf1)"
    by (cases "convert_frame s frame (describe_frame s frame)")
       (auto simp add: ndi_output_rawvideo_def)
  note same = convert_frame_Inr [OF cf]
  define n where
    "n = nat (to_uint64 (to_int32 (sint (line_stride_in_bytes vf1) * sint (yres vf1))))"
  define s2 where "s2 = (snd (bmalloc n s1))\<lparr>mem := memcpy (fst (bmalloc n s1)) (p_data vf1) n
                                                     (mem (snd (bmalloc n s1)))\<rparr>"
  define vf2 where "vf2 = vf1\<lparr>p_data := fst (bmalloc n s1)\<rparr>"
  have q2: "video_frames s2 = video_frames s"
    using same by (simp add: s2_def bmalloc_def emit_def)
  from r True cf obtain req add s3 where
    req: "required_delay_frames vf2 (timestamp frame) (last_audio_timestamp s2) = Inr req"
    and cd: "correct_drift add (length (video_frames s2)) vf2 s2 = Inr s3"
    and s': "s' = s3\<lparr>video_frames := video_frames s3 @ [vf2],
                      video_send_sem := video_send_sem s3 + 1\<rparr>"
    by (auto simp add: ndi_output_rawvideo_def Let_def split_def n_def s2_def vf2_def
             split: sum.splits)
  from required_delay_frames_paced [OF req]
  obtain d where d: "frame_time_of (frame_rate_N vf2) (frame_rate_D vf2) = Inr d" by blast
  have "set (video_frames s') \<subseteq> {vf2, vf2\<lparr>p_data := 0\<rparr>} \<union> set (video_frames s)"
    using correct_drift_frames [OF cd] by (auto simp add: s' q2)
  then show ?thesis using inv d by auto
qed

end
